theory Spec2Isabelle
  imports Complex_Main
begin

section \<open>Calendar dates and the JavaScript Date object\<close>

text \<open>
  The \<open>date\<close> field of a transaction is a string \<open>YYYY-MM-DD\<close>.  The model keeps the
  three numbers the string spells (\<open>civil\<close>: year, month, day of month), whether the
  calendar has such a day or not; strings of any other shape are outside the model.

  A time value of ECMAScript is an instant.  The model keeps a time value \<open>t\<close> as the
  day it falls on, \<open>Day(t)\<close>, written as a date of the proleptic Gregorian calendar, and
  the milliseconds elapsed within that day, \<open>TimeWithinDay(t)\<close>.  A \<open>Date\<close> object holds
  a time value or \<open>NaN\<close> (an Invalid Date), and a getter returns a number or \<open>NaN\<close>;
  \<open>NaN\<close> is \<open>None\<close>.  Amounts are JavaScript numbers; the model takes the finite ones,
  as the reals they denote, and never computes with them.
\<close>

datatype civil = Civil (cy: int) (cm: int) (cd: int)

datatype timevalue = TimeValue (Day: civil) (TimeWithinDay: int)

type_synonym jsdate = "timevalue option"

datatype error = RangeError

definition is_leap :: "int \<Rightarrow> bool" where
  "is_leap y = (y mod 4 = 0 \<and> (y mod 400 = 0 \<or> y mod 100 \<noteq> 0))"

definition days_in_month :: "int \<Rightarrow> int \<Rightarrow> int" where
  "days_in_month y m =
     (if m = 2 then (if is_leap y then 29 else 28)
      else if m = 4 \<or> m = 6 \<or> m = 9 \<or> m = 11 then 30
      else 31)"

definition valid_civil :: "civil \<Rightarrow> bool" where
  "valid_civil c =
     (1 \<le> cm c \<and> cm c \<le> 12 \<and> 1 \<le> cd c \<and> cd c \<le> days_in_month (cy c) (cm c))"

definition next_day :: "civil \<Rightarrow> civil" where
  "next_day c =
     (if cd c < days_in_month (cy c) (cm c) then Civil (cy c) (cm c) (cd c + 1)
      else if cm c < 12 then Civil (cy c) (cm c + 1) 1
      else Civil (cy c + 1) 1 1)"

definition prev_day :: "civil \<Rightarrow> civil" where
  "prev_day c =
     (if 1 < cd c then Civil (cy c) (cm c) (cd c - 1)
      else if 1 < cm c then Civil (cy c) (cm c - 1) (days_in_month (cy c) (cm c - 1))
      else Civil (cy c - 1) 12 31)"

text \<open>The calendar day \<open>k\<close> days after (before, when \<open>k\<close> is negative) a given day.\<close>

definition add_days :: "civil \<Rightarrow> int \<Rightarrow> civil" where
  "add_days c k = (if 0 \<le> k then (next_day ^^ nat k) c else (prev_day ^^ nat (- k)) c)"

text \<open>Earlier in the calendar.\<close>

definition civil_less :: "civil \<Rightarrow> civil \<Rightarrow> bool" where
  "civil_less a b =
     (cy a < cy b \<or> cy a = cy b \<and> (cm a < cm b \<or> cm a = cm b \<and> cd a < cd b))"

text \<open>
  ECMAScript's \<open>MakeDay(year, month, date)\<close>: \<open>month\<close> counts from 0 and may lie outside
  0..11, \<open>date\<close> may lie outside the month; the result is the day \<open>date - 1\<close> days after
  the first of the month that \<open>month\<close> denotes.
\<close>

definition MakeDay :: "int \<Rightarrow> int \<Rightarrow> int \<Rightarrow> civil" where
  "MakeDay year month dt = add_days (Civil (year + month div 12) (month mod 12 + 1) 1) (dt - 1)"

definition msPerDay :: int where
  "msPerDay = 86400000"

text \<open>
  \<open>TimeClip\<close>: time values reach from 100,000,000 days before 1970-01-01T00:00Z, the
  start of 20 April of the year -271821, to 100,000,000 days after it, the start of
  13 September 275760; an instant outside is \<open>NaN\<close>.
\<close>

definition TimeClip :: "timevalue \<Rightarrow> jsdate" where
  "TimeClip t =
     (if \<not> civil_less (Day t) (Civil (- 271821) 4 20) \<and>
         (civil_less (Day t) (Civil 275760 9 13) \<or>
          Day t = Civil 275760 9 13 \<and> TimeWithinDay t = 0)
      then Some t else None)"

text \<open>
  Local time.  The offset of local time from UTC depends on the instant (daylight
  saving) and is the environment's to decide: \<open>tza t True\<close> is the offset in
  milliseconds in force at the instant \<open>t\<close>, \<open>tza t False\<close> the offset to take for the
  local time \<open>t\<close> (\<open>LocalTZA(t, isUTC)\<close> of ECMAScript).  \<open>plus_ms\<close> moves a time value
  by a number of milliseconds.
\<close>

definition plus_ms :: "timevalue \<Rightarrow> int \<Rightarrow> timevalue" where
  "plus_ms t ms =
     TimeValue (add_days (Day t) ((TimeWithinDay t + ms) div msPerDay))
               ((TimeWithinDay t + ms) mod msPerDay)"

definition LocalTime :: "(timevalue \<Rightarrow> bool \<Rightarrow> int) \<Rightarrow> timevalue \<Rightarrow> timevalue" where
  "LocalTime tza t = plus_ms t (tza t True)"

definition UTC :: "(timevalue \<Rightarrow> bool \<Rightarrow> int) \<Rightarrow> timevalue \<Rightarrow> timevalue" where
  "UTC tza t = plus_ms t (- tza t False)"

text \<open>
  \<open>new Date("YYYY-MM-DD")\<close>: a date-only string denotes midnight UTC of that day.  A
  month outside 1..12 or a day outside 1..31 makes an Invalid Date.  A day from 29 to 31
  that the month does not have is read by V8 as running into the next month (other
  engines make it an Invalid Date).
\<close>

definition Date_parse :: "civil \<Rightarrow> jsdate" where
  "Date_parse c =
     (if 1 \<le> cm c \<and> cm c \<le> 12 \<and> 1 \<le> cd c \<and> cd c \<le> 31
      then TimeClip (TimeValue (MakeDay (cy c) (cm c - 1) (cd c)) 0)
      else None)"

text \<open>
  \<open>new Date(year, month, day)\<close>: local midnight; the constructor reads a year from 0
  to 99 as a year of the twentieth century.
\<close>

definition MakeFullYear :: "int \<Rightarrow> int" where
  "MakeFullYear year = (if 0 \<le> year \<and> year \<le> 99 then 1900 + year else year)"

definition Date_local :: "(timevalue \<Rightarrow> bool \<Rightarrow> int) \<Rightarrow> int \<Rightarrow> int \<Rightarrow> int option \<Rightarrow> jsdate" where
  "Date_local tza year month dt =
     (case dt of
        None \<Rightarrow> None
      | Some n \<Rightarrow> TimeClip (UTC tza (TimeValue (MakeDay (MakeFullYear year) month n) 0)))"

definition getFullYear :: "(timevalue \<Rightarrow> bool \<Rightarrow> int) \<Rightarrow> jsdate \<Rightarrow> int option" where
  "getFullYear tza d = map_option (\<lambda>t. cy (Day (LocalTime tza t))) d"

definition getMonth :: "(timevalue \<Rightarrow> bool \<Rightarrow> int) \<Rightarrow> jsdate \<Rightarrow> int option" where
  "getMonth tza d = map_option (\<lambda>t. cm (Day (LocalTime tza t)) - 1) d"

definition getDate :: "(timevalue \<Rightarrow> bool \<Rightarrow> int) \<Rightarrow> jsdate \<Rightarrow> int option" where
  "getDate tza d = map_option (\<lambda>t. cd (Day (LocalTime tza t))) d"

text \<open>
  The setters work on the local time of the date and clip the result; on an Invalid
  Date, or with the argument \<open>NaN\<close>, \<open>setDate\<close> and \<open>setMonth\<close> give an Invalid Date.
  \<open>setFullYear\<close> takes the time value +0 for an Invalid Date.
\<close>

definition setDate :: "(timevalue \<Rightarrow> bool \<Rightarrow> int) \<Rightarrow> jsdate \<Rightarrow> int option \<Rightarrow> jsdate" where
  "setDate tza d dt =
     (case d of
        None \<Rightarrow> None
      | Some t \<Rightarrow>
          (case dt of
             None \<Rightarrow> None
           | Some n \<Rightarrow>
               (let l = LocalTime tza t
                in TimeClip (UTC tza (TimeValue (MakeDay (cy (Day l)) (cm (Day l) - 1) n)
                                                (TimeWithinDay l))))))"

definition setMonth :: "(timevalue \<Rightarrow> bool \<Rightarrow> int) \<Rightarrow> jsdate \<Rightarrow> int option \<Rightarrow> jsdate" where
  "setMonth tza d month =
     (case d of
        None \<Rightarrow> None
      | Some t \<Rightarrow>
          (case month of
             None \<Rightarrow> None
           | Some n \<Rightarrow>
               (let l = LocalTime tza t
                in TimeClip (UTC tza (TimeValue (MakeDay (cy (Day l)) n (cd (Day l)))
                                                (TimeWithinDay l))))))"

definition setFullYear :: "(timevalue \<Rightarrow> bool \<Rightarrow> int) \<Rightarrow> jsdate \<Rightarrow> int option \<Rightarrow> jsdate" where
  "setFullYear tza d year =
     (case year of
        None \<Rightarrow> None
      | Some n \<Rightarrow>
          (let l = (case d of None \<Rightarrow> TimeValue (Civil 1970 1 1) 0 | Some t \<Rightarrow> LocalTime tza t)
           in TimeClip (UTC tza (TimeValue (MakeDay n (cm (Day l) - 1) (cd (Day l)))
                                           (TimeWithinDay l)))))"

text \<open>
  \<open>d.toISOString().split('T')[0]\<close>: the UTC calendar day of the instant; on an Invalid
  Date \<open>toISOString\<close> throws a \<open>RangeError\<close>.
\<close>

definition toISODate :: "jsdate \<Rightarrow> error + civil" where
  "toISODate d = (case d of None \<Rightarrow> Inl RangeError | Some t \<Rightarrow> Inr (Day t))"

section \<open>Printing numbers\<close>

text \<open>The decimal digit of a number below ten.\<close>

definition digit_char :: "nat \<Rightarrow> char" where
  "digit_char n = ''0123456789'' ! n"

fun show_nat :: "nat \<Rightarrow> string" where
  "show_nat n =
     (if n < 10 then [digit_char n] else show_nat (n div 10) @ [digit_char (n mod 10)])"

declare show_nat.simps [simp del]

definition show_int :: "int \<Rightarrow> string" where
  "show_int i = (if i < 0 then CHR ''-'' # show_nat (nat (- i)) else show_nat (nat i))"

text \<open>\<open>s.padStart(2, '0')\<close>\<close>

definition padStart2 :: "string \<Rightarrow> string" where
  "padStart2 s = (if length s < 2 then replicate (2 - length s) CHR ''0'' @ s else s)"

section \<open>The data model (db.ts)\<close>

datatype tx_type = Income | Expense

datatype period = Daily | Weekly | Monthly | Yearly | Custom

record repeat_config =
  rc_times :: int
  rc_period :: period
  rc_customDays :: "int option"

text \<open>
  The records carry the fields of the interfaces of the source under their names; where
  a name is taken (\<open>id\<close>, \<open>type\<close>, \<open>value\<close>, \<open>times\<close>) or shared between the interfaces, it
  carries a prefix.  Optional fields are options.  A draft
  (\<open>Omit<Transaction, 'id' | 'createdAt' | 'updatedAt'>\<close>) is a transaction record whose
  three omitted fields are overwritten by the operation that stores it, as the object
  spread in the source does.
\<close>

record transaction =
  tx_id :: string
  tx_type :: tx_type
  tx_value :: real
  currency :: string
  description :: string
  categoryId :: string
  accountId :: string
  date :: civil
  isCompleted :: bool
  completedAt :: "string option"
  isFixed :: bool
  isRepeating :: bool
  repeatConfig :: "repeat_config option"
  repeatIndex :: "int option"
  repeatTotal :: "int option"
  parentRepeatId :: "string option"
  observation :: string
  tags :: "string list"
  createdAt :: string
  updatedAt :: string

record category =
  cat_id :: string
  cat_type :: tx_type
  cat_name :: string
  cat_color :: string
  cat_icon :: string
  cat_isDefault :: bool
  cat_isSystem :: bool
  cat_createdAt :: string
  cat_updatedAt :: string

record account =
  acc_id :: string
  acc_name :: string
  acc_color :: string
  acc_icon :: string
  acc_isDefault :: bool
  acc_createdAt :: string
  acc_updatedAt :: string

record user_settings =
  us_id :: string
  us_name :: string
  us_email :: string
  us_notes :: string
  biometricsEnabled :: bool
  accentColor :: string
  theme :: string
  dateFormat :: string
  language :: string
  defaultCurrency :: string
  firstLaunchLang :: string
  processedFixedMonths :: "string list option"
  us_createdAt :: string
  us_updatedAt :: string

section \<open>The entity store and its environment\<close>

text \<open>
  An object store with key path \<open>id\<close> holds at most one record per id.  The model keeps
  a store as the list of its records; \<open>put\<close> overwrites the record with the same id in
  place or appends a new one, \<open>get\<close> finds by id, \<open>delete\<close> removes by id and \<open>getAll\<close>
  is the list.  The list keeps the records in the order in which their ids were first
  put; IndexedDB hands them out in the order of their keys.  The claims settled below
  are about which records a store holds, not about that order.  Storage failures are
  not modelled.

  The \<open>settings\<close> store is only ever read and written under the key \<open>'user'\<close>; the model
  keeps the record stored there, if any.  \<open>uuidv4()\<close> and \<open>new Date().toISOString()\<close>
  read the environment: the world carries the sequence of ids and of timestamps still
  to be handed out, and the offsets of its local time (\<open>LocalTZA\<close>).
\<close>

fun db_put :: "('r \<Rightarrow> string) \<Rightarrow> 'r \<Rightarrow> 'r list \<Rightarrow> 'r list" where
  "db_put key r [] = [r]"
| "db_put key r (x # xs) = (if key x = key r then r # xs else x # db_put key r xs)"

definition db_get :: "('r \<Rightarrow> string) \<Rightarrow> 'r list \<Rightarrow> string \<Rightarrow> 'r option" where
  "db_get key xs k = find (\<lambda>r. key r = k) xs"

definition db_delete :: "('r \<Rightarrow> string) \<Rightarrow> 'r list \<Rightarrow> string \<Rightarrow> 'r list" where
  "db_delete key xs k = filter (\<lambda>r. key r \<noteq> k) xs"

record world =
  transactions :: "transaction list"
  categories :: "category list"
  accounts :: "account list"
  settings :: "user_settings option"
  LocalTZA :: "timevalue \<Rightarrow> bool \<Rightarrow> int"
  uuid_src :: "nat \<Rightarrow> string"
  clock_src :: "nat \<Rightarrow> string"

definition uuidv4 :: "world \<Rightarrow> string \<times> world" where
  "uuidv4 w = (uuid_src w 0, w\<lparr>uuid_src := (\<lambda>n. uuid_src w (Suc n))\<rparr>)"

definition nowISO :: "world \<Rightarrow> string \<times> world" where
  "nowISO w = (clock_src w 0, w\<lparr>clock_src := (\<lambda>n. clock_src w (Suc n))\<rparr>)"

section \<open>Transaction operations (db.ts)\<close>

definition addTransaction :: "transaction \<Rightarrow> world \<Rightarrow> transaction \<times> world" where
  "addTransaction draft w =
     (let (now, w1) = nowISO w;
          (u, w2) = uuidv4 w1;
          newTransaction = draft\<lparr>tx_id := u, createdAt := now, updatedAt := now\<rparr>
      in (newTransaction,
          w2\<lparr>transactions := db_put tx_id newTransaction (transactions w2)\<rparr>))"

text \<open>
  \<open>addRecurringTransaction\<close>: the \<open>switch\<close> in the body of the \<open>for\<close> loop sets the date
  of installment \<open>i\<close> on a copy of the base date.
\<close>

definition installmentDate ::
  "(timevalue \<Rightarrow> bool \<Rightarrow> int) \<Rightarrow> period \<Rightarrow> int option \<Rightarrow> jsdate \<Rightarrow> int \<Rightarrow> jsdate" where
  "installmentDate tza p customDays baseDate i =
     (case p of
        Daily \<Rightarrow> setDate tza baseDate (map_option (\<lambda>d. d + i) (getDate tza baseDate))
      | Weekly \<Rightarrow> setDate tza baseDate (map_option (\<lambda>d. d + i * 7) (getDate tza baseDate))
      | Monthly \<Rightarrow> setMonth tza baseDate (map_option (\<lambda>m. m + i) (getMonth tza baseDate))
      | Yearly \<Rightarrow> setFullYear tza baseDate (map_option (\<lambda>y. y + i) (getFullYear tza baseDate))
      | Custom \<Rightarrow>
          setDate tza baseDate
            (map_option
               (\<lambda>d. d + i * (case customDays of None \<Rightarrow> 30 | Some n \<Rightarrow> if n = 0 then 30 else n))
               (getDate tza baseDate)))"

text \<open>
  The record \<open>newTransaction\<close> that the loop body builds for installment \<open>i\<close> with id \<open>u\<close>
  and date \<open>d\<close>.
\<close>

definition newInstallment ::
  "transaction \<Rightarrow> string \<Rightarrow> string \<Rightarrow> repeat_config \<Rightarrow> int \<Rightarrow> string \<Rightarrow> civil \<Rightarrow> transaction" where
  "newInstallment draft now parentId rc i u d =
     draft\<lparr>
       tx_id := u,
       date := d,
       parentRepeatId := Some parentId,
       repeatIndex := Some (i + 1),
       repeatTotal := Some (rc_times rc),
       createdAt := now,
       updatedAt := now\<rparr>"

text \<open>
  The loop.  The object literal takes its id from \<open>uuidv4()\<close> before it prints the date;
  a \<open>RangeError\<close> thrown there ends the call, and the records stored by then stay.
\<close>

function recurring_loop ::
  "transaction \<Rightarrow> string \<Rightarrow> string \<Rightarrow> repeat_config \<Rightarrow> jsdate \<Rightarrow> int \<Rightarrow>
   transaction list \<times> world \<Rightarrow> (error + transaction list) \<times> world" where
  "recurring_loop draft now parentId rc baseDate i (acc, w) =
     (if i < rc_times rc then
        (let (u, w1) = uuidv4 w
         in case toISODate
                   (installmentDate (LocalTZA w) (rc_period rc) (rc_customDays rc) baseDate i) of
              Inl e \<Rightarrow> (Inl e, w1)
            | Inr d \<Rightarrow>
                (let newTransaction = newInstallment draft now parentId rc i u d
                 in recurring_loop draft now parentId rc baseDate (i + 1)
                      (acc @ [newTransaction],
                       w1\<lparr>transactions := db_put tx_id newTransaction (transactions w1)\<rparr>)))
      else (Inr acc, w))"
  by pat_completeness auto
termination
  by (relation "measure (\<lambda>(draft, now, parentId, rc, baseDate, i, s). nat (rc_times rc - i))") auto

declare recurring_loop.simps [simp del]

definition addRecurringTransaction ::
  "transaction \<Rightarrow> world \<Rightarrow> (error + transaction list) \<times> world" where
  "addRecurringTransaction draft w =
     (case (if isRepeating draft then repeatConfig draft else None) of
        None \<Rightarrow> (let (single, w1) = addTransaction draft w in (Inr [single], w1))
      | Some rc \<Rightarrow>
          (let (now, w1) = nowISO w;
               (parentId, w2) = uuidv4 w1;
               baseDate = Date_parse (date draft)
           in recurring_loop draft now parentId rc baseDate 0 ([], w2)))"

text \<open>
  \<open>getTransactionsByMonth\<close> reads the year and the month of a date with the local
  getters; \<open>NaN === year\<close> is false.
\<close>

definition getTransactionsByMonth :: "int \<Rightarrow> int \<Rightarrow> world \<Rightarrow> transaction list" where
  "getTransactionsByMonth year month w =
     filter (\<lambda>tx. getFullYear (LocalTZA w) (Date_parse (date tx)) = Some year \<and>
                  getMonth (LocalTZA w) (Date_parse (date tx)) = Some month)
       (transactions w)"

section \<open>Category deletion (db.ts)\<close>

fun deleteCategory_loop :: "string \<Rightarrow> string \<Rightarrow> transaction list \<Rightarrow> world \<Rightarrow> world" where
  "deleteCategory_loop ident moveToId [] w = w"
| "deleteCategory_loop ident moveToId (tx # txs) w =
     (if categoryId tx = ident then
        (let (now, w1) = nowISO w
         in deleteCategory_loop ident moveToId txs
              (w1\<lparr>transactions :=
                    db_put tx_id (tx\<lparr>categoryId := moveToId, updatedAt := now\<rparr>)
                      (transactions w1)\<rparr>))
      else deleteCategory_loop ident moveToId txs w)"

definition deleteCategory :: "string \<Rightarrow> string \<Rightarrow> world \<Rightarrow> world" where
  "deleteCategory ident moveToId w =
     (let w1 = deleteCategory_loop ident moveToId (transactions w) w
      in w1\<lparr>categories := db_delete cat_id (categories w1) ident\<rparr>)"

section \<open>Fixed transactions (fixedTransactions.ts)\<close>

definition getMonthKey :: "int \<Rightarrow> int \<Rightarrow> string" where
  "getMonthKey year month = show_int year @ ''-'' @ padStart2 (show_int (month + 1))"

definition getFixedTransactionsFromMonth :: "int \<Rightarrow> int \<Rightarrow> world \<Rightarrow> transaction list" where
  "getFixedTransactionsFromMonth year month w = filter isFixed (getTransactionsByMonth year month w)"

definition isMonthProcessed :: "int \<Rightarrow> int \<Rightarrow> world \<Rightarrow> bool" where
  "isMonthProcessed year month w =
     (case settings w of
        None \<Rightarrow> False
      | Some s \<Rightarrow>
          getMonthKey year month \<in>
            set (case processedFixedMonths s of None \<Rightarrow> [] | Some ms \<Rightarrow> ms))"

definition markMonthAsProcessed :: "int \<Rightarrow> int \<Rightarrow> world \<Rightarrow> world" where
  "markMonthAsProcessed year month w =
     (case settings w of
        None \<Rightarrow> w
      | Some s \<Rightarrow>
          (let processedMonths = (case processedFixedMonths s of None \<Rightarrow> [] | Some ms \<Rightarrow> ms);
               monthKey = getMonthKey year month
           in if monthKey \<in> set processedMonths then w
              else
                (let (now, w1) = nowISO w
                 in w1\<lparr>settings :=
                         Some (s\<lparr>processedFixedMonths := Some (processedMonths @ [monthKey]),
                                  us_updatedAt := now\<rparr>)\<rparr>)))"

text \<open>
  The date a fixed transaction is given in the target month: the first half of the loop
  body, up to \<open>newDate.toISOString().split('T')[0]\<close>.  \<open>NaN !== month\<close> is true.
\<close>

definition fixedDate ::
  "(timevalue \<Rightarrow> bool \<Rightarrow> int) \<Rightarrow> int \<Rightarrow> int \<Rightarrow> transaction \<Rightarrow> error + civil" where
  "fixedDate tza year month tx =
     (let originalDate = Date_parse (date tx);
          newDate = Date_local tza year month (getDate tza originalDate);
          newDate' =
            (if getMonth tza newDate \<noteq> Some month
             then setDate tza (setMonth tza (setDate tza newDate (Some 0)) (Some (month + 1)))
                    (Some 0)
             else newDate)
      in toISODate newDate')"

text \<open>
  The draft that the loop body hands to \<open>addTransaction\<close> for a fixed transaction \<open>tx\<close>
  and the date \<open>d\<close>.
\<close>

definition fixedDraft :: "transaction \<Rightarrow> civil \<Rightarrow> transaction" where
  "fixedDraft tx d =
     \<lparr>tx_id = [], tx_type = tx_type tx, tx_value = tx_value tx,
      currency = currency tx, description = description tx,
      categoryId = categoryId tx, accountId = accountId tx,
      date = d,
      isCompleted = False, completedAt = None,
      isFixed = True, isRepeating = False,
      repeatConfig = None, repeatIndex = None, repeatTotal = None,
      parentRepeatId = None,
      observation = observation tx, tags = tags tx,
      createdAt = [], updatedAt = []\<rparr>"

text \<open>
  The loop over \<open>previousFixedTransactions\<close>.  A \<open>RangeError\<close> thrown while the draft is
  built ends the call: the clones stored by then stay and the month is not marked.
\<close>

fun generate_loop ::
  "int \<Rightarrow> int \<Rightarrow> transaction list \<Rightarrow> nat \<times> world \<Rightarrow> (error + nat) \<times> world" where
  "generate_loop year month [] (createdCount, w) = (Inr createdCount, w)"
| "generate_loop year month (tx # txs) (createdCount, w) =
     (case fixedDate (LocalTZA w) year month tx of
        Inl e \<Rightarrow> (Inl e, w)
      | Inr d \<Rightarrow>
          (let (created, w1) = addTransaction (fixedDraft tx d) w
           in generate_loop year month txs (createdCount + 1, w1)))"

definition generateFixedTransactionsForMonth :: "int \<Rightarrow> int \<Rightarrow> world \<Rightarrow> (error + nat) \<times> world" where
  "generateFixedTransactionsForMonth year month w =
     (if isMonthProcessed year month w then (Inr 0, w)
      else
        (let prevMonth = (if month - 1 < 0 then 11 else month - 1);
             prevYear = (if month - 1 < 0 then year - 1 else year);
             previousFixedTransactions = getFixedTransactionsFromMonth prevYear prevMonth w
         in if length previousFixedTransactions = 0
            then (Inr 0, markMonthAsProcessed year month w)
            else
              (case generate_loop year month previousFixedTransactions (0, w) of
                 (Inl e, w1) \<Rightarrow> (Inl e, w1)
               | (Inr createdCount, w1) \<Rightarrow>
                   (Inr createdCount, markMonthAsProcessed year month w1))))"

section \<open>Export and import (SettingsPage.tsx)\<close>

text \<open>
  The export file is the JSON text of \<open>exportData\<close>; the import reads it back with
  \<open>JSON.parse\<close>.  Records of the data model survive that round trip unchanged, so the
  model hands the exported value to the import as it is.
\<close>

record export_data =
  version :: nat
  exportedAt :: string
  ex_transactions :: "transaction list"
  ex_categories :: "category list"
  ex_accounts :: "account list"
  ex_settings :: "user_settings option"

definition handleExportData :: "world \<Rightarrow> export_data \<times> world" where
  "handleExportData w =
     (let (now, w1) = nowISO w
      in (\<lparr>version = 1, exportedAt = now, ex_transactions = transactions w,
           ex_categories = categories w, ex_accounts = accounts w,
           ex_settings = settings w\<rparr>, w1))"

definition type_string :: "tx_type \<Rightarrow> string" where
  "type_string t = (case t of Income \<Rightarrow> ''income'' | Expense \<Rightarrow> ''expense'')"

definition category_key :: "category \<Rightarrow> string" where
  "category_key c = type_string (cat_type c) @ ''-'' @ cat_name c"

definition handleImportData :: "export_data \<Rightarrow> world \<Rightarrow> world" where
  "handleImportData importData w =
     (let existingCatKeys = set (map category_key (categories w));
          w1 = fold (\<lambda>cat v. if category_key cat \<notin> existingCatKeys
                               then v\<lparr>categories := db_put cat_id cat (categories v)\<rparr> else v)
                 (ex_categories importData) w;
          existingAccNames = set (map acc_name (accounts w1));
          w2 = fold (\<lambda>acc v. if acc_name acc \<notin> existingAccNames
                               then v\<lparr>accounts := db_put acc_id acc (accounts v)\<rparr> else v)
                 (ex_accounts importData) w1;
          existingTxIds = set (map tx_id (transactions w2));
          w3 = fold (\<lambda>tx v. if tx_id tx \<notin> existingTxIds
                              then v\<lparr>transactions := db_put tx_id tx (transactions v)\<rparr> else v)
                 (ex_transactions importData) w2
      in w3)"

section \<open>Closed forms used in the statements\<close>

text \<open>
  The transactions of a store after every reference to category \<open>ident\<close> was moved to
  \<open>moveToId\<close>, the \<open>k\<close>-th moved record stamped with the \<open>k\<close>-th reading of the clock.
\<close>

fun repointed :: "string \<Rightarrow> string \<Rightarrow> (nat \<Rightarrow> string) \<Rightarrow> transaction list \<Rightarrow> transaction list" where
  "repointed ident moveToId clk [] = []"
| "repointed ident moveToId clk (tx # txs) =
     (if categoryId tx = ident
      then tx\<lparr>categoryId := moveToId, updatedAt := clk 0\<rparr> #
             repointed ident moveToId (\<lambda>n. clk (Suc n)) txs
      else tx # repointed ident moveToId clk txs)"

text \<open>
  The record stored for the clone of a fixed transaction \<open>tx\<close>: its draft with the date
  \<open>d\<close>, under the id \<open>u\<close> and with the timestamp \<open>t\<close>.
\<close>

definition fixedClone :: "transaction \<Rightarrow> civil \<Rightarrow> string \<Rightarrow> string \<Rightarrow> transaction" where
  "fixedClone tx d u t = (fixedDraft tx d)\<lparr>tx_id := u, createdAt := t, updatedAt := t\<rparr>"

text \<open>
  \<open>uuidv4()\<close> is taken to hand out ids that are new: no id twice, and none that a
  transaction of the store already has.
\<close>

definition fresh_ids :: "world \<Rightarrow> bool" where
  "fresh_ids w = (inj (uuid_src w) \<and> range (uuid_src w) \<inter> tx_id ` set (transactions w) = {})"

section \<open>Example environments and stores\<close>

text \<open>
  An environment whose local time is a fixed number of minutes east of UTC all year
  (UTC itself with 0; 60 is West Africa Time, -180 the time of Buenos Aires), and
  Central European Time with the daylight saving period of 2024, from 31 March
  01:00 UTC to 27 October 01:00 UTC.  A local time that the clocks skip or show twice
  takes the offset in force before the change.
\<close>

definition fixed_zone :: "int \<Rightarrow> timevalue \<Rightarrow> bool \<Rightarrow> int" where
  "fixed_zone minutes t isUTC = minutes * 60000"

definition time_less :: "timevalue \<Rightarrow> timevalue \<Rightarrow> bool" where
  "time_less a b =
     (civil_less (Day a) (Day b) \<or> Day a = Day b \<and> TimeWithinDay a < TimeWithinDay b)"

definition europe_berlin_2024 :: "timevalue \<Rightarrow> bool \<Rightarrow> int" where
  "europe_berlin_2024 t isUTC =
     (if isUTC
      then (if \<not> time_less t (TimeValue (Civil 2024 3 31) 3600000) \<and>
               time_less t (TimeValue (Civil 2024 10 27) 3600000)
            then 7200000 else 3600000)
      else (if \<not> time_less t (TimeValue (Civil 2024 3 31) 10800000) \<and>
               time_less t (TimeValue (Civil 2024 10 27) 10800000)
            then 7200000 else 3600000))"

text \<open>
  One pending fixed expense (rent, 300, dated 2024-01-31) and one completed income
  (salary, 1000) on the same account and currency; a second account without
  transactions; ids \<open>u, uu, uuu, \<dots>\<close> and timestamps \<open>T, TT, TTT, \<dots>\<close> still to be handed
  out; local time is UTC.
\<close>

definition rent :: transaction where
  "rent =
     \<lparr>tx_id = ''t1'', tx_type = Expense, tx_value = 300, currency = ''BRL'',
      description = ''rent'', categoryId = ''c1'', accountId = ''a1'',
      date = Civil 2024 1 31, isCompleted = False, completedAt = None,
      isFixed = True, isRepeating = False, repeatConfig = None, repeatIndex = None,
      repeatTotal = None, parentRepeatId = None, observation = [], tags = [],
      createdAt = ''S'', updatedAt = ''S''\<rparr>"

definition salary :: transaction where
  "salary =
     \<lparr>tx_id = ''t2'', tx_type = Income, tx_value = 1000, currency = ''BRL'',
      description = ''salary'', categoryId = ''c2'', accountId = ''a1'',
      date = Civil 2024 1 5, isCompleted = True, completedAt = Some ''S'',
      isFixed = False, isRepeating = False, repeatConfig = None, repeatIndex = None,
      repeatTotal = None, parentRepeatId = None, observation = [], tags = [],
      createdAt = ''S'', updatedAt = ''S''\<rparr>"

definition cat_rent :: category where
  "cat_rent =
     \<lparr>cat_id = ''c1'', cat_type = Expense, cat_name = ''rent'', cat_color = ''#EF4444'',
      cat_icon = ''Home'', cat_isDefault = False, cat_isSystem = True,
      cat_createdAt = ''S'', cat_updatedAt = ''S''\<rparr>"

definition cat_salary :: category where
  "cat_salary =
     \<lparr>cat_id = ''c2'', cat_type = Income, cat_name = ''salary'', cat_color = ''#3B82F6'',
      cat_icon = ''Briefcase'', cat_isDefault = False, cat_isSystem = True,
      cat_createdAt = ''S'', cat_updatedAt = ''S''\<rparr>"

definition wallet :: account where
  "wallet =
     \<lparr>acc_id = ''a1'', acc_name = ''defaultAccount'', acc_color = ''#8B5CF6'',
      acc_icon = ''Wallet'', acc_isDefault = True, acc_createdAt = ''S'',
      acc_updatedAt = ''S''\<rparr>"

definition savings :: account where
  "savings =
     \<lparr>acc_id = ''a2'', acc_name = ''savings'', acc_color = ''#10B981'',
      acc_icon = ''Wallet'', acc_isDefault = False, acc_createdAt = ''S'',
      acc_updatedAt = ''S''\<rparr>"

definition user :: user_settings where
  "user =
     \<lparr>us_id = ''user'', us_name = [], us_email = [], us_notes = [],
      biometricsEnabled = False, accentColor = ''#8B5CF6'', theme = ''auto'',
      dateFormat = ''auto'', language = ''en'', defaultCurrency = ''BRL'',
      firstLaunchLang = ''en'', processedFixedMonths = Some [],
      us_createdAt = ''S'', us_updatedAt = ''S''\<rparr>"

definition ids0 :: "nat \<Rightarrow> string" where
  "ids0 n = replicate (Suc n) CHR ''u''"

definition clock0 :: "nat \<Rightarrow> string" where
  "clock0 n = replicate (Suc n) CHR ''T''"

definition store0 :: world where
  "store0 =
     \<lparr>transactions = [rent, salary], categories = [cat_rent, cat_salary],
      accounts = [wallet, savings], settings = Some user,
      LocalTZA = fixed_zone 0,
      uuid_src = ids0, clock_src = clock0\<rparr>"

text \<open>The rent as a call for another month stores it: new id, date and timestamps.\<close>

definition rent_clone :: "string \<Rightarrow> string \<Rightarrow> civil \<Rightarrow> transaction" where
  "rent_clone u t d = rent\<lparr>tx_id := u, date := d, createdAt := t, updatedAt := t\<rparr>"

text \<open>A store with nothing in it.\<close>

definition empty_store :: world where
  "empty_store =
     \<lparr>transactions = [], categories = [], accounts = [], settings = None,
      LocalTZA = fixed_zone 0,
      uuid_src = ids0, clock_src = clock0\<rparr>"

text \<open>
  A second fixed expense, dated on the first of February 2024, and the example store
  three hours west of UTC with the rent dated on the first of January 2024.
\<close>

definition gym :: transaction where
  "gym = rent\<lparr>tx_id := ''t3'', description := ''gym'', date := Civil 2024 2 1\<rparr>"

definition west_store :: world where
  "west_store =
     store0\<lparr>LocalTZA := fixed_zone (- 180),
            transactions := [rent\<lparr>date := Civil 2024 1 1\<rparr>, gym]\<rparr>"

text \<open>
  Drafts of installment series: six monthly installments from 2024-01-31, three monthly
  ones from 2024-03-01, four daily ones from 2024-03-30, and two repeated every
  \<open>customDays = 0\<close> days.
\<close>

definition six_monthly :: transaction where
  "six_monthly =
     rent\<lparr>isFixed := False, isRepeating := True,
          repeatConfig := Some \<lparr>rc_times = 6, rc_period = Monthly, rc_customDays = None\<rparr>\<rparr>"

definition two_custom :: transaction where
  "two_custom =
     rent\<lparr>date := Civil 2024 1 1, isFixed := False, isRepeating := True,
          repeatConfig := Some \<lparr>rc_times = 2, rc_period = Custom, rc_customDays = Some 0\<rparr>\<rparr>"

definition three_monthly :: transaction where
  "three_monthly =
     rent\<lparr>date := Civil 2024 3 1, isFixed := False, isRepeating := True,
          repeatConfig := Some \<lparr>rc_times = 3, rc_period = Monthly, rc_customDays = None\<rparr>\<rparr>"

definition four_daily :: transaction where
  "four_daily =
     rent\<lparr>date := Civil 2024 3 30, isFixed := False, isRepeating := True,
          repeatConfig := Some \<lparr>rc_times = 4, rc_period = Daily, rc_customDays = None\<rparr>\<rparr>"

section \<open>The store\<close>

lemmas sample_defs = store0_def rent_def salary_def cat_rent_def cat_salary_def wallet_def
  savings_def user_def ids0_def clock0_def

lemma map_upt_Suc_shift: "map f [0..<Suc n] = f 0 # map (\<lambda>k. f (Suc k)) [0..<n]"
  by (simp only: upt_conv_Cons zero_less_Suc list.map map_Suc_upt [symmetric] map_map comp_def)

lemma db_get_db_put_same: "db_get key (db_put key r xs) (key r) = Some r"
  by (induction xs) (auto simp: db_get_def)

lemma db_put_replace:
  "key r' = key r \<Longrightarrow> key r \<notin> key ` set pre \<Longrightarrow>
   db_put key r' (pre @ r # xs) = pre @ r' # xs"
  by (induction pre) auto

lemma db_put_fresh: "key r \<notin> key ` set xs \<Longrightarrow> db_put key r xs = xs @ [r]"
  by (induction xs) auto

lemma fold_db_put_fresh:
  "distinct (map key rs) \<Longrightarrow> key ` set rs \<inter> key ` set xs = {} \<Longrightarrow>
   fold (db_put key) rs xs = xs @ rs"
proof (induction rs arbitrary: xs)
  case Nil
  show ?case by simp
next
  case (Cons r rs)
  from Cons.prems have put: "db_put key r xs = xs @ [r]"
    by (intro db_put_fresh) auto
  from Cons.prems have "fold (db_put key) rs (xs @ [r]) = (xs @ [r]) @ rs"
    by (intro Cons.IH) auto
  with put show ?case by simp
qed

lemma addTransaction_eq:
  "addTransaction draft w =
     (draft\<lparr>tx_id := uuid_src w 0, createdAt := clock_src w 0, updatedAt := clock_src w 0\<rparr>,
      w\<lparr>clock_src := (\<lambda>n. clock_src w (Suc n)),
        uuid_src := (\<lambda>n. uuid_src w (Suc n)),
        transactions :=
          db_put tx_id
            (draft\<lparr>tx_id := uuid_src w 0, createdAt := clock_src w 0, updatedAt := clock_src w 0\<rparr>)
            (transactions w)\<rparr>)"
  by (simp add: addTransaction_def nowISO_def uuidv4_def Let_def)

section \<open>addTransaction and unresolved references\<close>

text \<open>
  C9, as stated: for every draft whose \<open>categoryId\<close> or \<open>accountId\<close> does not resolve to
  an existing record, \<open>addTransaction\<close> fails with a ValidationError and writes no
  record.  In the empty store neither reference of the draft \<open>rent\<close> resolves, and
  \<open>addTransaction\<close> returns the new record and stores it.
\<close>

theorem C9_counterexample:
  "db_get cat_id (categories empty_store) (categoryId rent) = None \<and>
   db_get acc_id (accounts empty_store) (accountId rent) = None \<and>
   addTransaction rent empty_store =
     (rent\<lparr>tx_id := ''u'', createdAt := ''T'', updatedAt := ''T''\<rparr>,
      empty_store\<lparr>clock_src := (\<lambda>n. clock0 (Suc n)), uuid_src := (\<lambda>n. ids0 (Suc n)),
        transactions := [rent\<lparr>tx_id := ''u'', createdAt := ''T'', updatedAt := ''T''\<rparr>]\<rparr>)"
  by (simp add: addTransaction_def nowISO_def uuidv4_def Let_def db_get_def empty_store_def
      ids0_def clock0_def)

text \<open>
  C9, amended: \<open>addTransaction\<close> checks no reference.  For every draft and every store,
  whether or not \<open>categoryId\<close> and \<open>accountId\<close> resolve, it returns the draft with a newly
  generated id and both timestamps set to the current time, the store then holds that
  record under its id, and categories and accounts are untouched.
\<close>

theorem C9_addTransaction_unchecked:
  "fst (addTransaction draft w) =
     draft\<lparr>tx_id := uuid_src w 0, createdAt := clock_src w 0, updatedAt := clock_src w 0\<rparr> \<and>
   db_get tx_id (transactions (snd (addTransaction draft w))) (uuid_src w 0) =
     Some (fst (addTransaction draft w)) \<and>
   categories (snd (addTransaction draft w)) = categories w \<and>
   accounts (snd (addTransaction draft w)) = accounts w"
proof -
  let ?new = "draft\<lparr>tx_id := uuid_src w 0, createdAt := clock_src w 0, updatedAt := clock_src w 0\<rparr>"
  have "db_get tx_id (db_put tx_id ?new (transactions w)) (tx_id ?new) = Some ?new"
    by (rule db_get_db_put_same)
  then show ?thesis
    by (simp add: addTransaction_eq)
qed

section \<open>Deleting a category\<close>

lemma deleteCategory_loop_transactions:
  "distinct (map tx_id (pre @ txs)) \<Longrightarrow> transactions w = pre @ txs \<Longrightarrow>
   transactions (deleteCategory_loop a b txs w) = pre @ repointed a b (clock_src w) txs"
proof (induction txs arbitrary: pre w)
  case Nil
  then show ?case by simp
next
  case (Cons tx txs)
  show ?case
  proof (cases "categoryId tx = a")
    case False
    have "transactions (deleteCategory_loop a b txs w) = (pre @ [tx]) @ repointed a b (clock_src w) txs"
      using Cons.prems by (intro Cons.IH) simp_all
    with False show ?thesis by simp
  next
    case True
    define tx' where "tx' = tx\<lparr>categoryId := b, updatedAt := clock_src w 0\<rparr>"
    define w1 where "w1 = w\<lparr>clock_src := (\<lambda>n. clock_src w (Suc n)),
                            transactions := pre @ tx' # txs\<rparr>"
    have notin: "tx_id tx \<notin> tx_id ` set pre"
      using Cons.prems(1) by auto
    have put: "db_put tx_id tx' (pre @ tx # txs) = pre @ tx' # txs"
      using notin by (intro db_put_replace) (simp_all add: tx'_def)
    have unroll: "deleteCategory_loop a b (tx # txs) w = deleteCategory_loop a b txs w1"
      using True Cons.prems(2) put by (simp add: nowISO_def w1_def tx'_def)
    have "transactions (deleteCategory_loop a b txs w1) = (pre @ [tx']) @ repointed a b (clock_src w1) txs"
      using Cons.prems(1) by (intro Cons.IH) (simp_all add: w1_def tx'_def)
    with True unroll show ?thesis by (simp add: w1_def tx'_def)
  qed
qed

lemma deleteCategory_loop_categories:
  "categories (deleteCategory_loop a b txs w) = categories w"
  by (induction txs arbitrary: w) (simp_all add: nowISO_def)

lemma repointed_length: "length (repointed a b clk txs) = length txs"
  by (induction txs arbitrary: clk) simp_all

lemma repointed_nth:
  "i < length txs \<Longrightarrow>
   repointed a b clk txs ! i =
     (if categoryId (txs ! i) = a
      then (txs ! i)\<lparr>categoryId := b,
             updatedAt := clk (length (filter (\<lambda>t. categoryId t = a) (take i txs)))\<rparr>
      else txs ! i)"
proof (induction txs arbitrary: clk i)
  case Nil
  then show ?case by simp
next
  case (Cons tx txs)
  show ?case
  proof (cases i)
    case 0
    then show ?thesis by simp
  next
    case (Suc j)
    with Cons.prems have "j < length txs" by simp
    from Cons.IH [OF this] Suc show ?thesis by simp
  qed
qed

lemma deleteCategory_transactions:
  "distinct (map tx_id (transactions w)) \<Longrightarrow>
   transactions (deleteCategory a b w) = repointed a b (clock_src w) (transactions w)"
  using deleteCategory_loop_transactions [of "[]" "transactions w" w a b]
  by (simp add: deleteCategory_def Let_def)

lemma deleteCategory_categories:
  "categories (deleteCategory a b w) = filter (\<lambda>c. cat_id c \<noteq> a) (categories w)"
  by (simp add: deleteCategory_def Let_def deleteCategory_loop_categories db_delete_def)

text \<open>
  C4, as stated, quantifies over every pair of category ids.  With \<open>catA = catB\<close> the
  transactions of the category are rewritten to the category itself: in the example
  store, after \<open>deleteCategory('c1', 'c1')\<close> the first transaction still has
  \<open>categoryId = 'c1'\<close>.
\<close>

theorem C4_counterexample:
  "map categoryId (transactions (deleteCategory ''c1'' ''c1'' store0)) = [''c1'', ''c2'']"
  by (simp add: deleteCategory_def nowISO_def Let_def sample_defs)

text \<open>
  C4, amended: for every pair of \<^emph>\<open>different\<close> category ids \<open>catA\<close> and \<open>catB\<close>, after
  \<open>deleteCategory(catA, catB)\<close> no transaction in the store has \<open>categoryId = catA\<close>;
  the store holds as many transactions as before, where every one that had
  \<open>categoryId = catA\<close> now has \<open>categoryId = catB\<close> and as \<open>updatedAt\<close> a time read from
  the clock during the call (the \<open>k\<close>-th such transaction the \<open>k\<close>-th reading) and is
  otherwise unchanged, and every other transaction is unchanged; and the categories
  collection is the old one without the record of id \<open>catA\<close>.  (A store holds one record
  per id.)
\<close>

theorem C4_deleteCategory:
  assumes "distinct (map tx_id (transactions w))" and "catA \<noteq> catB"
  shows "(\<forall>tx \<in> set (transactions (deleteCategory catA catB w)). categoryId tx \<noteq> catA) \<and>
    length (transactions (deleteCategory catA catB w)) = length (transactions w) \<and>
    (\<forall>i < length (transactions w).
       transactions (deleteCategory catA catB w) ! i =
         (if categoryId (transactions w ! i) = catA
          then (transactions w ! i)\<lparr>categoryId := catB,
                 updatedAt := clock_src w
                   (length (filter (\<lambda>t. categoryId t = catA) (take i (transactions w))))\<rparr>
          else transactions w ! i)) \<and>
    categories (deleteCategory catA catB w) = filter (\<lambda>c. cat_id c \<noteq> catA) (categories w) \<and>
    db_get cat_id (categories (deleteCategory catA catB w)) catA = None"
proof -
  let ?after = "transactions (deleteCategory catA catB w)"
  have eq: "?after = repointed catA catB (clock_src w) (transactions w)"
    using assms(1) by (rule deleteCategory_transactions)
  have len: "length ?after = length (transactions w)"
    by (simp add: eq repointed_length)
  have nth: "\<forall>i < length (transactions w).
       ?after ! i =
         (if categoryId (transactions w ! i) = catA
          then (transactions w ! i)\<lparr>categoryId := catB,
                 updatedAt := clock_src w
                   (length (filter (\<lambda>t. categoryId t = catA) (take i (transactions w))))\<rparr>
          else transactions w ! i)"
    by (simp add: eq repointed_nth)
  have none: "\<forall>tx \<in> set ?after. categoryId tx \<noteq> catA"
  proof
    fix tx assume "tx \<in> set ?after"
    then obtain i where i: "i < length ?after" and tx: "tx = ?after ! i"
      by (auto simp: in_set_conv_nth)
    from i len have "i < length (transactions w)" by simp
    with nth tx assms(2) show "categoryId tx \<noteq> catA"
      by (auto split: if_splits)
  qed
  have gone: "db_get cat_id (categories (deleteCategory catA catB w)) catA = None"
    by (simp add: deleteCategory_categories db_get_def find_None_iff)
  from none len nth gone show ?thesis
    by (simp add: deleteCategory_categories)
qed

theorem C4_deleteCategory_witness:
  "distinct (map tx_id (transactions store0)) \<and>
   length (transactions (deleteCategory ''c1'' ''c2'' store0)) = 2 \<and>
   transactions (deleteCategory ''c1'' ''c2'' store0) ! 0 =
     rent\<lparr>categoryId := ''c2'', updatedAt := ''T''\<rparr> \<and>
   transactions (deleteCategory ''c1'' ''c2'' store0) ! 1 = salary \<and>
   categories (deleteCategory ''c1'' ''c2'' store0) = [cat_salary]"
  using C4_deleteCategory [of store0 "''c1''" "''c2''"]
  by (simp add: sample_defs)

section \<open>Calendar arithmetic\<close>

lemma days_in_month_bounds: "28 \<le> days_in_month y m" "days_in_month y m \<le> 31"
  by (simp_all add: days_in_month_def)

lemma next_day_Civil:
  "next_day (Civil y m d) =
     (if d < days_in_month y m then Civil y m (d + 1)
      else if m < 12 then Civil y (m + 1) 1 else Civil (y + 1) 1 1)"
  by (simp add: next_day_def)

lemma prev_day_Civil:
  "prev_day (Civil y m d) =
     (if 1 < d then Civil y m (d - 1)
      else if 1 < m then Civil y (m - 1) (days_in_month y (m - 1)) else Civil (y - 1) 12 31)"
  by (simp add: prev_day_def)

lemma valid_next_day: "valid_civil c \<Longrightarrow> valid_civil (next_day c)"
  using days_in_month_bounds [of "cy c" "cm c + 1"] days_in_month_bounds [of "cy c + 1" 1]
  by (auto simp: valid_civil_def next_day_def)

lemma valid_prev_day: "valid_civil c \<Longrightarrow> valid_civil (prev_day c)"
  using days_in_month_bounds [of "cy c" "cm c - 1"]
  by (auto simp: valid_civil_def prev_day_def days_in_month_def)

lemma prev_next_day: "valid_civil c \<Longrightarrow> prev_day (next_day c) = c"
  by (cases c) (auto simp: valid_civil_def next_day_def prev_day_def days_in_month_def)

lemma next_prev_day: "valid_civil c \<Longrightarrow> next_day (prev_day c) = c"
  by (cases c) (auto simp: valid_civil_def next_day_def prev_day_def days_in_month_def)

lemma valid_funpow_next: "valid_civil c \<Longrightarrow> valid_civil ((next_day ^^ n) c)"
  by (induction n) (simp_all add: valid_next_day)

lemma valid_funpow_prev: "valid_civil c \<Longrightarrow> valid_civil ((prev_day ^^ n) c)"
  by (induction n) (simp_all add: valid_prev_day)

lemma valid_add_days: "valid_civil c \<Longrightarrow> valid_civil (add_days c k)"
  by (simp add: add_days_def valid_funpow_next valid_funpow_prev)

lemma add_days_0: "add_days c 0 = c"
  by (simp add: add_days_def)

text \<open>Unrolling \<open>add_days\<close> one day at a time; these rules evaluate it on numerals.\<close>

lemma add_days_pos: "0 < k \<Longrightarrow> add_days c k = add_days (next_day c) (k - 1)"
proof -
  assume "0 < k"
  then obtain n where n: "nat k = Suc n" "nat (k - 1) = n"
    by (cases "nat k") auto
  with \<open>0 < k\<close> show ?thesis
    by (simp add: add_days_def funpow_swap1)
qed

lemma add_days_neg: "k < 0 \<Longrightarrow> add_days c k = add_days (prev_day c) (k + 1)"
proof -
  assume "k < 0"
  then obtain n where n: "nat (- k) = Suc n" "nat (- (k + 1)) = n"
    by (cases "nat (- k)") auto
  show ?thesis
  proof (cases "k + 1 = 0")
    case True
    with n \<open>k < 0\<close> show ?thesis by (simp add: add_days_def)
  next
    case False
    with \<open>k < 0\<close> have "\<not> 0 \<le> k + 1" by simp
    with n \<open>k < 0\<close> show ?thesis by (simp add: add_days_def funpow_swap1)
  qed
qed

text \<open>
  The getters and setters on a date that is a time value, without the local bindings of
  their definitions: the rules that evaluate them.
\<close>

lemma getters_Some:
  "getFullYear tza (Some t) = Some (cy (Day (LocalTime tza t)))"
  "getMonth tza (Some t) = Some (cm (Day (LocalTime tza t)) - 1)"
  "getDate tza (Some t) = Some (cd (Day (LocalTime tza t)))"
  by (simp_all add: getFullYear_def getMonth_def getDate_def)

lemma getters_None:
  "getFullYear tza None = None" "getMonth tza None = None" "getDate tza None = None"
  by (simp_all add: getFullYear_def getMonth_def getDate_def)

lemma setters_Some:
  "setDate tza (Some t) (Some n) =
     TimeClip (UTC tza (TimeValue
       (MakeDay (cy (Day (LocalTime tza t))) (cm (Day (LocalTime tza t)) - 1) n)
       (TimeWithinDay (LocalTime tza t))))"
  "setMonth tza (Some t) (Some n) =
     TimeClip (UTC tza (TimeValue
       (MakeDay (cy (Day (LocalTime tza t))) n (cd (Day (LocalTime tza t))))
       (TimeWithinDay (LocalTime tza t))))"
  "setFullYear tza (Some t) (Some n) =
     TimeClip (UTC tza (TimeValue
       (MakeDay n (cm (Day (LocalTime tza t)) - 1) (cd (Day (LocalTime tza t))))
       (TimeWithinDay (LocalTime tza t))))"
  by (simp_all add: setDate_def setMonth_def setFullYear_def Let_def)

lemma setters_None:
  "setDate tza None dt = None" "setDate tza d None = None"
  "setMonth tza None dt = None" "setMonth tza d None = None"
  "setFullYear tza d None = None"
  by (simp_all add: setDate_def setMonth_def setFullYear_def split: option.split)

lemma Date_local_Some:
  "Date_local tza year month (Some n) =
     TimeClip (UTC tza (TimeValue (MakeDay (MakeFullYear year) month n) 0))"
  by (simp add: Date_local_def)

lemma Date_local_None: "Date_local tza year month None = None"
  by (simp add: Date_local_def)

lemma toISODate_simps:
  "toISODate (Some t) = Inr (Day t)" "toISODate None = Inl RangeError"
  by (simp_all add: toISODate_def)

lemmas date_eval =
  MakeDay_def add_days_0 add_days_pos add_days_neg next_day_Civil prev_day_Civil
  days_in_month_def is_leap_def plus_ms_def LocalTime_def UTC_def msPerDay_def TimeClip_def
  civil_less_def Date_parse_def Date_local_Some Date_local_None MakeFullYear_def
  getters_Some getters_None setters_Some setters_None toISODate_simps fixed_zone_def

lemma funpow_next_within_month:
  "1 \<le> d \<Longrightarrow> d + int n \<le> days_in_month y m \<Longrightarrow>
   (next_day ^^ n) (Civil y m d) = Civil y m (d + int n)"
proof (induction n)
  case 0
  show ?case by simp
next
  case (Suc n)
  then have "(next_day ^^ n) (Civil y m d) = Civil y m (d + int n)" by simp
  then have "(next_day ^^ Suc n) (Civil y m d) = next_day (Civil y m (d + int n))"
    by simp
  also have "\<dots> = Civil y m (d + int (Suc n))"
    using Suc.prems by (simp add: next_day_Civil algebra_simps)
  finally show ?case .
qed

lemma add_days_within_month:
  "1 \<le> d \<Longrightarrow> 0 \<le> k \<Longrightarrow> d + k \<le> days_in_month y m \<Longrightarrow>
   add_days (Civil y m d) k = Civil y m (d + k)"
  using funpow_next_within_month [of d "nat k" y m] by (simp add: add_days_def)

lemma MakeDay_in_month:
  assumes "0 \<le> m" "m \<le> 11" "1 \<le> d" "d \<le> days_in_month y (m + 1)"
  shows "MakeDay y m d = Civil y (m + 1) d"
proof -
  from assms have m: "m div 12 = 0" "m mod 12 = m" by auto
  have "add_days (Civil y (m + 1) 1) (d - 1) = Civil y (m + 1) (1 + (d - 1))"
    using assms by (intro add_days_within_month) auto
  then show ?thesis by (simp add: MakeDay_def m)
qed

lemma MakeDay_valid:
  assumes "valid_civil c"
  shows "MakeDay (cy c) (cm c - 1) (cd c) = c"
  using assms MakeDay_in_month [of "cm c - 1" "cd c" "cy c"]
  by (simp add: valid_civil_def)

text \<open>A date that exists, in a year from which time values are in reach, parses to its midnight.\<close>

lemma TimeClip_years:
  "- 271821 < cy (Day t) \<Longrightarrow> cy (Day t) < 275760 \<Longrightarrow> TimeClip t = Some t"
  by (simp add: TimeClip_def civil_less_def)

lemma Date_parse_valid:
  assumes "valid_civil c" and "- 271821 < cy c" and "cy c < 275760"
  shows "Date_parse c = Some (TimeValue c 0)"
proof -
  from assms(1) days_in_month_bounds(2) [of "cy c" "cm c"]
  have "1 \<le> cm c \<and> cm c \<le> 12 \<and> 1 \<le> cd c \<and> cd c \<le> 31"
    by (simp add: valid_civil_def)
  with assms show ?thesis
    by (simp add: Date_parse_def MakeDay_valid TimeClip_years)
qed

text \<open>A day moves the year by one at most.\<close>

lemma cy_next_day: "cy c \<le> cy (next_day c)" "cy (next_day c) \<le> cy c + 1"
  by (simp_all add: next_day_def)

lemma cy_prev_day: "cy c - 1 \<le> cy (prev_day c)" "cy (prev_day c) \<le> cy c"
  by (simp_all add: prev_day_def)

lemma cy_funpow_next:
  "cy c \<le> cy ((next_day ^^ n) c) \<and> cy ((next_day ^^ n) c) \<le> cy c + int n"
proof (induction n)
  case 0
  show ?case by simp
next
  case (Suc n)
  with cy_next_day [of "(next_day ^^ n) c"] show ?case by simp
qed

lemma cy_funpow_prev:
  "cy c - int n \<le> cy ((prev_day ^^ n) c) \<and> cy ((prev_day ^^ n) c) \<le> cy c"
proof (induction n)
  case 0
  show ?case by simp
next
  case (Suc n)
  with cy_prev_day [of "(prev_day ^^ n) c"] show ?case by simp
qed

lemma cy_add_days: "cy c - \<bar>k\<bar> \<le> cy (add_days c k)" "cy (add_days c k) \<le> cy c + \<bar>k\<bar>"
  using cy_funpow_next [of c "nat k"] cy_funpow_prev [of c "nat (- k)"]
  by (auto simp: add_days_def)

lemma cy_MakeDay:
  "y + m div 12 - \<bar>dt - 1\<bar> \<le> cy (MakeDay y m dt)"
  "cy (MakeDay y m dt) \<le> y + m div 12 + \<bar>dt - 1\<bar>"
  using cy_add_days [of "Civil (y + m div 12) (m mod 12 + 1) 1" "dt - 1"]
  by (simp_all add: MakeDay_def)

text \<open>
  Moving a time value by less than a day moves its day by one at most, and the time
  within the day stays within the day.
\<close>

lemma plus_ms_within:
  "0 \<le> TimeWithinDay (plus_ms t ms)" "TimeWithinDay (plus_ms t ms) < msPerDay"
  by (simp_all add: plus_ms_def msPerDay_def)

lemma plus_ms_day:
  assumes "0 \<le> TimeWithinDay t" and "TimeWithinDay t < msPerDay" and "\<bar>ms\<bar> < msPerDay"
  shows "cy (Day t) - 1 \<le> cy (Day (plus_ms t ms))"
    and "cy (Day (plus_ms t ms)) \<le> cy (Day t) + 1"
proof -
  let ?k = "(TimeWithinDay t + ms) div msPerDay"
  from assms have "- msPerDay \<le> TimeWithinDay t + ms" and "TimeWithinDay t + ms < 2 * msPerDay"
    by auto
  then have "- 1 \<le> ?k" and "?k \<le> 1"
    unfolding msPerDay_def by arith+
  then have "\<bar>?k\<bar> \<le> 1" by simp
  with cy_add_days [of "Day t" ?k]
  show "cy (Day t) - 1 \<le> cy (Day (plus_ms t ms))"
    and "cy (Day (plus_ms t ms)) \<le> cy (Day t) + 1"
    by (simp_all add: plus_ms_def)
qed

lemma plus_ms_valid: "valid_civil (Day t) \<Longrightarrow> valid_civil (Day (plus_ms t ms))"
  by (simp add: plus_ms_def valid_add_days)

text \<open>
  When an installment has a date.  The offsets of local time are taken to stay below a
  day.  Then, for a draft whose date exists and has a year from 0 to 9999, installment
  \<open>i\<close> of any period is a time value as long as \<open>i\<close> times the larger of 30 and
  \<open>customDays\<close> stays below 200,000: its year is then within the range of time values.
\<close>

lemma clip_UTC_defined:
  assumes "\<forall>t b. \<bar>tza t b\<bar> < msPerDay"
    and "0 \<le> ms" and "ms < msPerDay"
    and "- 271000 \<le> cy d" and "cy d \<le> 275000"
  shows "TimeClip (UTC tza (TimeValue d ms)) \<noteq> None"
proof -
  let ?t = "TimeValue d ms"
  from assms(1) have "\<bar>- tza ?t False\<bar> < msPerDay" by simp
  from plus_ms_day [of ?t, OF _ _ this] assms(2-5)
  have "- 271821 < cy (Day (UTC tza ?t))" and "cy (Day (UTC tza ?t)) < 275760"
    by (simp_all add: UTC_def)
  then show ?thesis by (simp add: TimeClip_years)
qed

lemma setter_defined:
  assumes "\<forall>t b. \<bar>tza t b\<bar> < msPerDay"
    and "0 \<le> ms" and "ms < msPerDay"
    and "- 271000 \<le> y + m div 12 - \<bar>dt - 1\<bar>" and "y + m div 12 + \<bar>dt - 1\<bar> \<le> 275000"
  shows "TimeClip (UTC tza (TimeValue (MakeDay y m dt) ms)) \<noteq> None"
  using cy_MakeDay [of y m dt] assms(4,5)
  by (intro clip_UTC_defined [OF assms(1-3)]) simp_all

lemma installmentDate_defined:
  assumes "valid_civil c" and "0 \<le> cy c" and "cy c \<le> 9999"
    and zone: "\<forall>t b. \<bar>tza t b\<bar> < msPerDay"
    and "0 \<le> i"
    and span: "i * max 30 (case customDays of None \<Rightarrow> 0 | Some n \<Rightarrow> \<bar>n\<bar>) \<le> 200000"
  shows "installmentDate tza p customDays (Date_parse c) i \<noteq> None"
proof -
  let ?t = "TimeValue c 0"
  let ?l = "LocalTime tza ?t"
  have parse: "Date_parse c = Some ?t"
    using assms(1-3) by (intro Date_parse_valid) simp_all
  from zone have z: "\<bar>tza ?t True\<bar> < msPerDay" by simp
  have ms: "0 \<le> TimeWithinDay ?l" "TimeWithinDay ?l < msPerDay"
    by (simp_all add: LocalTime_def plus_ms_within)
  have "valid_civil (Day ?l)"
    using assms(1) by (simp add: LocalTime_def plus_ms_valid)
  with days_in_month_bounds(2) [of "cy (Day ?l)" "cm (Day ?l)"]
  have md: "1 \<le> cm (Day ?l)" "cm (Day ?l) \<le> 12" "1 \<le> cd (Day ?l)" "cd (Day ?l) \<le> 31"
    by (simp_all add: valid_civil_def)
  from plus_ms_day [of ?t, OF _ _ z] assms(2,3)
  have yr: "- 1 \<le> cy (Day ?l)" "cy (Day ?l) \<le> 10000"
    by (simp_all add: LocalTime_def msPerDay_def)
  from md have m0: "(cm (Day ?l) - 1) div 12 = 0" by simp
  have "i * 30 \<le> i * max 30 (case customDays of None \<Rightarrow> 0 | Some n \<Rightarrow> \<bar>n\<bar>)"
    using \<open>0 \<le> i\<close> by (intro mult_left_mono) simp_all
  with span have i30: "i * 30 \<le> 200000" by simp
  with \<open>0 \<le> i\<close> have i1: "i \<le> 200000" and i7: "i * 7 \<le> 200000" by simp_all
  show ?thesis
  proof (cases p)
    case Daily
    have "\<bar>cd (Day ?l) + i - 1\<bar> \<le> 30 + i"
      using md \<open>0 \<le> i\<close> by simp
    with yr i1
    have "TimeClip (UTC tza (TimeValue
            (MakeDay (cy (Day ?l)) (cm (Day ?l) - 1) (cd (Day ?l) + i)) (TimeWithinDay ?l))) \<noteq> None"
      by (intro setter_defined [OF zone ms]) (simp_all add: m0)
    then show ?thesis
      by (simp add: Daily installmentDate_def parse getters_Some setters_Some)
  next
    case Weekly
    have "\<bar>cd (Day ?l) + i * 7 - 1\<bar> \<le> 30 + i * 7"
      using md \<open>0 \<le> i\<close> by simp
    with yr i7
    have "TimeClip (UTC tza (TimeValue
            (MakeDay (cy (Day ?l)) (cm (Day ?l) - 1) (cd (Day ?l) + i * 7))
            (TimeWithinDay ?l))) \<noteq> None"
      by (intro setter_defined [OF zone ms]) (simp_all add: m0)
    then show ?thesis
      by (simp add: Weekly installmentDate_def parse getters_Some setters_Some)
  next
    case Monthly
    have "0 \<le> (cm (Day ?l) - 1 + i) div 12" and "(cm (Day ?l) - 1 + i) div 12 \<le> 11 + i"
      using md \<open>0 \<le> i\<close> by arith+
    moreover have "\<bar>cd (Day ?l) - 1\<bar> \<le> 30"
      using md by simp
    ultimately
    have "TimeClip (UTC tza (TimeValue
            (MakeDay (cy (Day ?l)) (cm (Day ?l) - 1 + i) (cd (Day ?l))) (TimeWithinDay ?l))) \<noteq> None"
      using yr i1 by (intro setter_defined [OF zone ms]) simp_all
    then show ?thesis
      by (simp add: Monthly installmentDate_def parse getters_Some setters_Some)
  next
    case Yearly
    have "\<bar>cd (Day ?l) - 1\<bar> \<le> 30"
      using md by simp
    with yr i1 \<open>0 \<le> i\<close>
    have "TimeClip (UTC tza (TimeValue
            (MakeDay (cy (Day ?l) + i) (cm (Day ?l) - 1) (cd (Day ?l))) (TimeWithinDay ?l))) \<noteq> None"
      by (intro setter_defined [OF zone ms]) (simp_all add: m0)
    then show ?thesis
      by (simp add: Yearly installmentDate_def parse getters_Some setters_Some)
  next
    case Custom
    let ?s = "case customDays of None \<Rightarrow> 30 | Some n \<Rightarrow> if n = 0 then 30 else n"
    have "\<bar>?s\<bar> \<le> max 30 (case customDays of None \<Rightarrow> 0 | Some n \<Rightarrow> \<bar>n\<bar>)"
      by (simp split: option.split)
    with \<open>0 \<le> i\<close> have "i * \<bar>?s\<bar> \<le> i * max 30 (case customDays of None \<Rightarrow> 0 | Some n \<Rightarrow> \<bar>n\<bar>)"
      by (intro mult_left_mono) simp_all
    with span \<open>0 \<le> i\<close> have "\<bar>i * ?s\<bar> \<le> 200000"
      by (simp add: abs_mult)
    with md have "\<bar>cd (Day ?l) + i * ?s - 1\<bar> \<le> 200030"
      by simp
    with yr
    have "TimeClip (UTC tza (TimeValue
            (MakeDay (cy (Day ?l)) (cm (Day ?l) - 1) (cd (Day ?l) + i * ?s))
            (TimeWithinDay ?l))) \<noteq> None"
      by (intro setter_defined [OF zone ms]) (simp_all add: m0)
    then show ?thesis
      by (simp add: Custom installmentDate_def parse getters_Some setters_Some)
  qed
qed

section \<open>Generating the fixed transactions of a month\<close>

lemma generate_loop_settings:
  "settings (snd (generate_loop y m txs (c, w))) = settings w"
proof (induction txs arbitrary: c w)
  case Nil
  show ?case by simp
next
  case (Cons tx txs)
  show ?case
    by (simp add: addTransaction_eq Cons.IH split: sum.split)
qed

lemma markMonthAsProcessed_None:
  "settings w = None \<Longrightarrow> markMonthAsProcessed y m w = w"
  by (simp add: markMonthAsProcessed_def)

lemma markMonthAsProcessed_processed:
  "settings w \<noteq> None \<Longrightarrow> isMonthProcessed y m (markMonthAsProcessed y m w)"
  by (auto simp: markMonthAsProcessed_def isMonthProcessed_def nowISO_def Let_def
      split: option.splits)

lemma markMonthAsProcessed_transactions:
  "transactions (markMonthAsProcessed y m w) = transactions w"
  by (simp add: markMonthAsProcessed_def nowISO_def Let_def split: option.splits)

text \<open>A call that returns leaves the month marked, where there is a settings record.\<close>

lemma generate_processed:
  assumes "settings w \<noteq> None"
    and "generateFixedTransactionsForMonth y m w = (Inr n, w')"
  shows "isMonthProcessed y m w'"
proof (cases "isMonthProcessed y m w")
  case True
  with assms(2) show ?thesis by (simp add: generateFixedTransactionsForMonth_def)
next
  case False
  let ?src = "getFixedTransactionsFromMonth (if m - 1 < 0 then y - 1 else y)
                (if m - 1 < 0 then 11 else m - 1) w"
  show ?thesis
  proof (cases "length ?src = 0")
    case True
    with False assms(2) have "w' = markMonthAsProcessed y m w"
      by (simp add: generateFixedTransactionsForMonth_def Let_def)
    with assms(1) show ?thesis by (simp add: markMonthAsProcessed_processed)
  next
    case nonempty: False
    obtain r w1 where loop: "generate_loop y m ?src (0, w) = (r, w1)"
      by (cases "generate_loop y m ?src (0, w)")
    from generate_loop_settings [of y m ?src 0 w] loop assms(1)
    have s: "settings w1 \<noteq> None" by simp
    from False nonempty loop assms(2) have "w' = markMonthAsProcessed y m w1"
      by (cases r) (simp_all add: generateFixedTransactionsForMonth_def Let_def)
    with s show ?thesis by (simp add: markMonthAsProcessed_processed)
  qed
qed

text \<open>The definitions without their local bindings: the rules that evaluate a call.\<close>

lemma fixedDate_unfold:
  "fixedDate tza year month tx =
     toISODate
       (if getMonth tza (Date_local tza year month (getDate tza (Date_parse (date tx)))) \<noteq>
           Some month
        then setDate tza
               (setMonth tza
                  (setDate tza (Date_local tza year month (getDate tza (Date_parse (date tx))))
                     (Some 0))
                  (Some (month + 1)))
               (Some 0)
        else Date_local tza year month (getDate tza (Date_parse (date tx))))"
  unfolding fixedDate_def Let_def ..

lemma markMonthAsProcessed_unfold:
  "markMonthAsProcessed year month w =
     (case settings w of
        None \<Rightarrow> w
      | Some s \<Rightarrow>
          if getMonthKey year month \<in>
               set (case processedFixedMonths s of None \<Rightarrow> [] | Some ms \<Rightarrow> ms)
          then w
          else w\<lparr>clock_src := (\<lambda>n. clock_src w (Suc n)),
                 settings :=
                   Some (s\<lparr>processedFixedMonths :=
                             Some ((case processedFixedMonths s of None \<Rightarrow> [] | Some ms \<Rightarrow> ms) @
                                   [getMonthKey year month]),
                           us_updatedAt := clock_src w 0\<rparr>)\<rparr>)"
  unfolding markMonthAsProcessed_def nowISO_def Let_def prod.case ..

lemma generate_unfold:
  "generateFixedTransactionsForMonth year month w =
     (if isMonthProcessed year month w then (Inr 0, w)
      else if length (getFixedTransactionsFromMonth (if month - 1 < 0 then year - 1 else year)
                        (if month - 1 < 0 then 11 else month - 1) w) = 0
      then (Inr 0, markMonthAsProcessed year month w)
      else
        (case generate_loop year month
                (getFixedTransactionsFromMonth (if month - 1 < 0 then year - 1 else year)
                   (if month - 1 < 0 then 11 else month - 1) w) (0, w) of
           (Inl e, w1) \<Rightarrow> (Inl e, w1)
         | (Inr createdCount, w1) \<Rightarrow> (Inr createdCount, markMonthAsProcessed year month w1)))"
  unfolding generateFixedTransactionsForMonth_def Let_def ..

lemmas generate_eval =
  generate_unfold isMonthProcessed_def markMonthAsProcessed_unfold
  getFixedTransactionsFromMonth_def getTransactionsByMonth_def addTransaction_eq
  fixedDraft_def fixedDate_unfold getMonthKey_def show_int_def show_nat.simps digit_char_def
  padStart2_def

text \<open>
  C1, as stated, holds for every store.  Take the example store without its settings
  record: the first call for February 2024 stores one clone of the rent and returns 1,
  and so does the second call, which leaves two clones in the store.
\<close>

theorem C1_counterexample:
  "generateFixedTransactionsForMonth 2024 1 (store0\<lparr>settings := None\<rparr>) =
     (Inr 1, store0\<lparr>settings := None,
            clock_src := (\<lambda>k. clock0 (Suc k)), uuid_src := (\<lambda>k. ids0 (Suc k)),
            transactions := [rent, salary, rent_clone ''u'' ''T'' (Civil 2024 2 29)]\<rparr>) \<and>
   generateFixedTransactionsForMonth 2024 1
     (store0\<lparr>settings := None,
            clock_src := (\<lambda>k. clock0 (Suc k)), uuid_src := (\<lambda>k. ids0 (Suc k)),
            transactions := [rent, salary, rent_clone ''u'' ''T'' (Civil 2024 2 29)]\<rparr>) =
     (Inr 1, store0\<lparr>settings := None,
            clock_src := (\<lambda>k. clock0 (Suc (Suc k))), uuid_src := (\<lambda>k. ids0 (Suc (Suc k))),
            transactions := [rent, salary, rent_clone ''u'' ''T'' (Civil 2024 2 29),
                             rent_clone ''uu'' ''TT'' (Civil 2024 2 29)]\<rparr>)"
  by (simp add: generate_eval date_eval sample_defs rent_clone_def)

text \<open>
  C1, amended: in a store that has its settings record, for every year and month,
  calling \<open>generateFixedTransactionsForMonth(y,m)\<close> twice in a row leaves what the first
  call left: after the first call completes the month is marked as processed, and the
  second call returns 0 and changes nothing.
\<close>

theorem C1_idempotent:
  assumes "settings w \<noteq> None"
    and "generateFixedTransactionsForMonth y m w = (Inr n1, w1)"
    and "generateFixedTransactionsForMonth y m w1 = (r2, w2)"
  shows "isMonthProcessed y m w1 \<and> r2 = Inr 0 \<and> w2 = w1"
proof -
  have "isMonthProcessed y m w1"
    by (rule generate_processed [OF assms(1,2)])
  with assms(3) show ?thesis
    by (auto simp: generateFixedTransactionsForMonth_def)
qed

theorem C1_idempotent_witness:
  "settings store0 \<noteq> None \<and>
   fst (generateFixedTransactionsForMonth 2024 1 store0) = Inr 1 \<and>
   fst (generateFixedTransactionsForMonth 2024 1
          (snd (generateFixedTransactionsForMonth 2024 1 store0))) = Inr 0 \<and>
   snd (generateFixedTransactionsForMonth 2024 1
          (snd (generateFixedTransactionsForMonth 2024 1 store0))) =
     snd (generateFixedTransactionsForMonth 2024 1 store0)"
proof -
  have s: "settings store0 \<noteq> None" by (simp add: store0_def)
  have n: "fst (generateFixedTransactionsForMonth 2024 1 store0) = Inr 1"
    by (simp add: generate_eval date_eval sample_defs)
  then have g: "generateFixedTransactionsForMonth 2024 1 store0 =
      (Inr 1, snd (generateFixedTransactionsForMonth 2024 1 store0))"
    by (metis surjective_pairing)
  from s n C1_idempotent [OF s g surjective_pairing]
  show ?thesis by simp
qed

section \<open>Where local time is UTC\<close>

lemma add_days_succ:
  assumes "valid_civil c"
  shows "add_days c (k + 1) = next_day (add_days c k)"
proof (cases "0 \<le> k")
  case True
  then have "nat (k + 1) = Suc (nat k)" by simp
  with True show ?thesis by (simp add: add_days_def)
next
  case False
  then obtain n where n: "nat (- k) = Suc n" "nat (- (k + 1)) = n"
    by (cases "nat (- k)") auto
  have "next_day ((prev_day ^^ Suc n) c) = (prev_day ^^ n) c"
    using next_prev_day [OF valid_funpow_prev [OF assms, of n]] by simp
  moreover have "add_days c (k + 1) = (prev_day ^^ n) c"
  proof (cases "k + 1 = 0")
    case True
    with n show ?thesis by (simp add: add_days_def)
  next
    case False
    with \<open>\<not> 0 \<le> k\<close> have "\<not> 0 \<le> k + 1" by simp
    with n show ?thesis by (simp add: add_days_def)
  qed
  ultimately show ?thesis
    using False n by (simp add: add_days_def)
qed

lemma add_days_pred:
  assumes "valid_civil c"
  shows "add_days c (k - 1) = prev_day (add_days c k)"
proof -
  have "next_day (add_days c (k - 1)) = add_days c k"
    using add_days_succ [OF assms, of "k - 1"] by simp
  then have "prev_day (next_day (add_days c (k - 1))) = prev_day (add_days c k)"
    by simp
  then show ?thesis
    by (simp add: prev_next_day valid_add_days assms)
qed

text \<open>Adding days one after the other adds up, also across negative steps.\<close>

lemma add_days_add:
  assumes "valid_civil c"
  shows "add_days (add_days c a) b = add_days c (a + b)"
proof (induction b rule: int_induct [where k = 0])
  case base
  show ?case by (simp add: add_days_0)
next
  case (step1 i)
  have "add_days (add_days c a) (i + 1) = next_day (add_days (add_days c a) i)"
    by (rule add_days_succ) (rule valid_add_days [OF assms])
  also have "\<dots> = next_day (add_days c (a + i))" by (simp add: step1)
  also have "\<dots> = add_days c (a + i + 1)" by (rule add_days_succ [OF assms, symmetric])
  finally show ?case by (simp add: add.assoc)
next
  case (step2 i)
  have "add_days (add_days c a) (i - 1) = prev_day (add_days (add_days c a) i)"
    by (rule add_days_pred) (rule valid_add_days [OF assms])
  also have "\<dots> = prev_day (add_days c (a + i))" by (simp add: step2)
  also have "\<dots> = add_days c (a + i - 1)" by (rule add_days_pred [OF assms, symmetric])
  finally show ?case by (simp add: algebra_simps)
qed

lemma MakeDay_shift:
  assumes "valid_civil c"
  shows "MakeDay (cy c) (cm c - 1) (cd c + k) = add_days c k"
proof -
  from assms have m: "(cm c - 1) div 12 = 0" "(cm c - 1) mod 12 = cm c - 1"
    by (auto simp: valid_civil_def)
  have first: "valid_civil (Civil (cy c) (cm c) 1)"
    using assms days_in_month_bounds [of "cy c" "cm c"] by (simp add: valid_civil_def)
  have "MakeDay (cy c) (cm c - 1) (cd c + k) = add_days (Civil (cy c) (cm c) 1) ((cd c - 1) + k)"
    by (simp add: MakeDay_def m algebra_simps)
  also have "\<dots> = add_days (add_days (Civil (cy c) (cm c) 1) (cd c - 1)) k"
    by (rule add_days_add [OF first, symmetric])
  also have "add_days (Civil (cy c) (cm c) 1) (cd c - 1) = c"
    using MakeDay_valid [OF assms] by (simp add: MakeDay_def m)
  finally show ?thesis .
qed

text \<open>Day 0 of a month is the last day of the month before.\<close>

lemma MakeDay_zero:
  assumes "1 \<le> m" "m \<le> 11"
  shows "MakeDay y m 0 = Civil y m (days_in_month y m)"
proof -
  from assms have m: "m div 12 = 0" "m mod 12 = m" by auto
  from assms show ?thesis
    by (simp add: MakeDay_def m add_days_neg add_days_0 prev_day_Civil)
qed

text \<open>A day past the end of the month runs into the next month.\<close>

lemma MakeDay_overflow:
  assumes "0 \<le> m" "m \<le> 10" "days_in_month y (m + 1) < d"
    and "d \<le> days_in_month y (m + 1) + 28"
  shows "MakeDay y m d = Civil y (m + 2) (d - days_in_month y (m + 1))"
proof -
  let ?D = "days_in_month y (m + 1)"
  from assms have m: "m div 12 = 0" "m mod 12 = m" by auto
  have first: "valid_civil (Civil y (m + 1) 1)"
    using assms days_in_month_bounds [of y "m + 1"] by (simp add: valid_civil_def)
  have "MakeDay y m d = add_days (Civil y (m + 1) 1) ((?D - 1) + (d - ?D))"
    by (simp add: MakeDay_def m)
  also have "\<dots> = add_days (add_days (Civil y (m + 1) 1) (?D - 1)) (d - ?D)"
    by (rule add_days_add [OF first, symmetric])
  also have "add_days (Civil y (m + 1) 1) (?D - 1) = Civil y (m + 1) (1 + (?D - 1))"
    using days_in_month_bounds [of y "m + 1"] by (intro add_days_within_month) auto
  also have "add_days (Civil y (m + 1) (1 + (?D - 1))) (d - ?D) =
             add_days (Civil y (m + 2) 1) (d - ?D - 1)"
    using assms by (simp add: add_days_pos next_day_Civil add.commute)
  also have "\<dots> = Civil y (m + 2) (1 + (d - ?D - 1))"
    using assms days_in_month_bounds [of y "m + 2"] by (intro add_days_within_month) auto
  finally show ?thesis by simp
qed

text \<open>
  With the offset 0 local time is UTC: the getters read the date that was parsed, the
  setters and the constructor write the date that is printed.
\<close>

lemma plus_ms_0: "0 \<le> TimeWithinDay t \<Longrightarrow> TimeWithinDay t < msPerDay \<Longrightarrow> plus_ms t 0 = t"
  by (cases t) (simp add: plus_ms_def add_days_0)

lemma utc_getters:
  "getDate (fixed_zone 0) (Some (TimeValue c 0)) = Some (cd c)"
  "getMonth (fixed_zone 0) (Some (TimeValue c 0)) = Some (cm c - 1)"
  "getFullYear (fixed_zone 0) (Some (TimeValue c 0)) = Some (cy c)"
  by (simp_all add: getters_Some LocalTime_def fixed_zone_def plus_ms_0 msPerDay_def)

lemma utc_setters:
  "Date_local (fixed_zone 0) y m (Some d) = TimeClip (TimeValue (MakeDay (MakeFullYear y) m d) 0)"
  "setDate (fixed_zone 0) (Some (TimeValue c 0)) (Some d) =
     TimeClip (TimeValue (MakeDay (cy c) (cm c - 1) d) 0)"
  "setMonth (fixed_zone 0) (Some (TimeValue c 0)) (Some m) =
     TimeClip (TimeValue (MakeDay (cy c) m (cd c)) 0)"
  "setFullYear (fixed_zone 0) (Some (TimeValue c 0)) (Some y) =
     TimeClip (TimeValue (MakeDay y (cm c - 1) (cd c)) 0)"
  by (simp_all add: Date_local_Some setters_Some LocalTime_def UTC_def fixed_zone_def plus_ms_0
      msPerDay_def)

lemma TimeClip_Civil:
  "- 271821 < y \<Longrightarrow> y < 275760 \<Longrightarrow> TimeClip (TimeValue (Civil y m d) ms) = Some (TimeValue (Civil y m d) ms)"
  by (simp add: TimeClip_years)

text \<open>
  In UTC the date given to a fixed transaction is the day of its own date in the target
  month, or the last day of the target month when the month is too short.
\<close>

lemma fixedDate_utc:
  assumes "valid_civil (date tx)" and "0 \<le> cy (date tx)" and "cy (date tx) \<le> 9999"
    and "0 \<le> month" and "month \<le> 11" and "0 \<le> year" and "year \<le> 9999"
  shows "fixedDate (fixed_zone 0) year month tx =
     Inr (Civil (MakeFullYear year) (month + 1)
            (min (cd (date tx)) (days_in_month (MakeFullYear year) (month + 1))))"
proof -
  define Y where "Y = MakeFullYear year"
  let ?d = "cd (date tx)" and ?D = "days_in_month Y (month + 1)"
  from assms(6,7) have Y: "- 271821 < Y" "Y < 275760"
    by (simp_all add: Y_def MakeFullYear_def)
  from assms(1) have d: "1 \<le> ?d" "?d \<le> 31"
    using days_in_month_bounds [of "cy (date tx)" "cm (date tx)"]
    by (auto simp: valid_civil_def)
  have parse: "Date_parse (date tx) = Some (TimeValue (date tx) 0)"
    using assms(1-3) by (intro Date_parse_valid) simp_all
  have "fixedDate (fixed_zone 0) year month tx = Inr (Civil Y (month + 1) (min ?d ?D))"
  proof (cases "?d \<le> ?D")
    case True
    then have "MakeDay Y month ?d = Civil Y (month + 1) ?d"
      using assms d by (intro MakeDay_in_month) auto
    with True Y show ?thesis
      by (simp add: fixedDate_unfold parse utc_getters utc_setters Y_def [symmetric]
          TimeClip_Civil toISODate_simps)
  next
    case False
    then have short: "?D < 31" using d by simp
    then have m10: "month \<le> 10" and next31: "days_in_month Y (month + 2) = 31"
      using assms(4,5) by (auto simp: days_in_month_def split: if_splits)
    have over: "MakeDay Y month ?d = Civil Y (month + 2) (?d - ?D)"
      using assms(4) m10 False d days_in_month_bounds [of Y "month + 1"]
      by (intro MakeDay_overflow) auto
    have last: "MakeDay Y (month + 2 - 1) 0 = Civil Y (month + 1) ?D"
    proof -
      have "month + 2 - 1 = month + 1" by simp
      moreover have "MakeDay Y (month + 1) 0 = Civil Y (month + 1) ?D"
        using assms(4) m10 by (intro MakeDay_zero) auto
      ultimately show ?thesis by (simp only:)
    qed
    have again: "MakeDay Y (month + 1) ?D = Civil Y (month + 2) ?D"
    proof -
      have "month + 1 + 1 = month + 2" by simp
      moreover have "MakeDay Y (month + 1) ?D = Civil Y (month + 1 + 1) ?D"
        using assms(4) m10 next31 days_in_month_bounds [of Y "month + 1"]
        by (intro MakeDay_in_month) (auto simp: add.assoc)
      ultimately show ?thesis by (simp only:)
    qed
    have new: "Date_local (fixed_zone 0) year month (Some ?d) =
        Some (TimeValue (Civil Y (month + 2) (?d - ?D)) 0)"
      by (simp only: utc_setters Y_def [symmetric] over TimeClip_Civil [OF Y])
    have s1: "setDate (fixed_zone 0) (Some (TimeValue (Civil Y (month + 2) (?d - ?D)) 0)) (Some 0) =
              Some (TimeValue (Civil Y (month + 1) ?D) 0)"
      by (simp only: utc_setters civil.sel last TimeClip_Civil [OF Y])
    have s2: "setMonth (fixed_zone 0) (Some (TimeValue (Civil Y (month + 1) ?D) 0))
                (Some (month + 1)) =
              Some (TimeValue (Civil Y (month + 2) ?D) 0)"
      by (simp only: utc_setters civil.sel again TimeClip_Civil [OF Y])
    have s3: "setDate (fixed_zone 0) (Some (TimeValue (Civil Y (month + 2) ?D) 0)) (Some 0) =
              Some (TimeValue (Civil Y (month + 1) ?D) 0)"
      by (simp only: utc_setters civil.sel last TimeClip_Civil [OF Y])
    have "fixedDate (fixed_zone 0) year month tx = Inr (Civil Y (month + 1) ?D)"
      by (simp only: fixedDate_unfold parse utc_getters new s1 s2 s3)
         (simp add: toISODate_simps)
    with False show ?thesis by simp
  qed
  then show ?thesis by (simp add: Y_def)
qed

text \<open>In UTC the transactions of a month are those whose date lies in the month.\<close>

lemma getTransactionsByMonth_utc:
  assumes "LocalTZA w = fixed_zone 0"
    and "\<forall>tx \<in> set (transactions w).
           valid_civil (date tx) \<and> 0 \<le> cy (date tx) \<and> cy (date tx) \<le> 9999"
  shows "getTransactionsByMonth year month w =
     filter (\<lambda>tx. cy (date tx) = year \<and> cm (date tx) = month + 1) (transactions w)"
  unfolding getTransactionsByMonth_def
proof (rule filter_cong [OF refl])
  fix tx assume "tx \<in> set (transactions w)"
  with assms(2) have "Date_parse (date tx) = Some (TimeValue (date tx) 0)"
    by (intro Date_parse_valid) auto
  then show "(getFullYear (LocalTZA w) (Date_parse (date tx)) = Some year \<and>
             getMonth (LocalTZA w) (Date_parse (date tx)) = Some month) =
            (cy (date tx) = year \<and> cm (date tx) = month + 1)"
    by (auto simp: assms(1) utc_getters)
qed

text \<open>The loop when no date fails to print: it stores one clone for each transaction read.\<close>

lemma generate_loop_char:
  assumes "\<forall>tx \<in> set txs. fixedDate (LocalTZA w) y m tx = Inr (dt tx)"
  shows "generate_loop y m txs (c, w) =
     (Inr (c + length txs),
      w\<lparr>clock_src := (\<lambda>k. clock_src w (length txs + k)),
        uuid_src := (\<lambda>k. uuid_src w (length txs + k)),
        transactions :=
          fold (db_put tx_id)
            (map (\<lambda>k. fixedClone (txs ! k) (dt (txs ! k)) (uuid_src w k) (clock_src w k))
               [0..<length txs])
            (transactions w)\<rparr>)"
  using assms
proof (induction txs arbitrary: c w)
  case Nil
  show ?case by simp
next
  case (Cons tx txs)
  let ?w1 = "w\<lparr>clock_src := (\<lambda>n. clock_src w (Suc n)), uuid_src := (\<lambda>n. uuid_src w (Suc n)),
               transactions :=
                 db_put tx_id (fixedClone tx (dt tx) (uuid_src w 0) (clock_src w 0))
                   (transactions w)\<rparr>"
  from Cons.prems have d: "fixedDate (LocalTZA w) y m tx = Inr (dt tx)"
    and rest: "\<forall>tx \<in> set txs. fixedDate (LocalTZA ?w1) y m tx = Inr (dt tx)"
    by simp_all
  have "generate_loop y m (tx # txs) (c, w) = generate_loop y m txs (c + 1, ?w1)"
    by (simp add: d addTransaction_eq fixedClone_def)
  also note Cons.IH [OF rest, of "c + 1"]
  finally show ?case
    by (simp add: map_upt_Suc_shift del: upt_Suc)
qed

lemma fresh_ids_distinct: "fresh_ids w \<Longrightarrow> distinct (map (uuid_src w) [0..<n])"
  by (simp add: fresh_ids_def distinct_map inj_on_def inj_def)

lemma fresh_ids_disjoint:
  "fresh_ids w \<Longrightarrow> uuid_src w ` set ks \<inter> tx_id ` set (transactions w) = {}"
  by (auto simp: fresh_ids_def)

text \<open>
  A call in UTC, on a store of dates that exist, for a month not yet marked: it reads
  the fixed transactions dated in the previous calendar month, returns their number and
  stores one clone of each, dated on the same day of the target month or on its last day.
\<close>

lemma generate_utc:
  assumes utc: "LocalTZA w = fixed_zone 0"
    and dates: "\<forall>tx \<in> set (transactions w).
                  valid_civil (date tx) \<and> 0 \<le> cy (date tx) \<and> cy (date tx) \<le> 9999"
    and new: "\<not> isMonthProcessed y m w"
    and m: "0 \<le> m" "m \<le> 11" and y: "0 \<le> y" "y \<le> 9999"
    and fresh: "fresh_ids w"
    and src: "src = filter (\<lambda>tx. isFixed tx \<and> cy (date tx) = (if m = 0 then y - 1 else y) \<and>
                                  cm (date tx) = (if m = 0 then 12 else m))
                      (transactions w)"
  shows "\<exists>w'. generateFixedTransactionsForMonth y m w = (Inr (length src), w') \<and>
     transactions w' =
       transactions w @
       map (\<lambda>k. fixedClone (src ! k)
                   (Civil (MakeFullYear y) (m + 1)
                      (min (cd (date (src ! k))) (days_in_month (MakeFullYear y) (m + 1))))
                   (uuid_src w k) (clock_src w k))
         [0..<length src]"
proof -
  let ?dt = "\<lambda>tx. Civil (MakeFullYear y) (m + 1)
                  (min (cd (date tx)) (days_in_month (MakeFullYear y) (m + 1)))"
  let ?clones = "map (\<lambda>k. fixedClone (src ! k) (?dt (src ! k)) (uuid_src w k) (clock_src w k))
                   [0..<length src]"
  from m have "(m - 1 < 0) = (m = 0)" by auto
  then have read: "getFixedTransactionsFromMonth (if m - 1 < 0 then y - 1 else y)
      (if m - 1 < 0 then 11 else m - 1) w = src"
    by (auto simp: getFixedTransactionsFromMonth_def getTransactionsByMonth_utc [OF utc dates]
        src intro!: filter_cong)
  show ?thesis
  proof (cases "src = []")
    case True
    with new read show ?thesis
      by (simp add: generate_unfold markMonthAsProcessed_transactions)
  next
    case False
    have "\<forall>tx \<in> set src. fixedDate (LocalTZA w) y m tx = Inr (?dt tx)"
    proof
      fix tx assume "tx \<in> set src"
      then have "tx \<in> set (transactions w)" by (simp add: src)
      with dates have "valid_civil (date tx)" "0 \<le> cy (date tx)" "cy (date tx) \<le> 9999"
        by auto
      then show "fixedDate (LocalTZA w) y m tx = Inr (?dt tx)"
        unfolding utc by (rule fixedDate_utc) (rule m y)+
    qed
    note loop = generate_loop_char [OF this, of 0]
    have ids: "map tx_id ?clones = map (uuid_src w) [0..<length src]"
      by (simp add: fixedClone_def)
    have "distinct (map tx_id ?clones)"
      unfolding ids by (rule fresh_ids_distinct [OF fresh])
    moreover have "tx_id ` set ?clones = uuid_src w ` set [0..<length src]"
      using ids by (metis list.set_map)
    then have "tx_id ` set ?clones \<inter> tx_id ` set (transactions w) = {}"
      using fresh_ids_disjoint [OF fresh, of "[0..<length src]"] by simp
    ultimately
    have "fold (db_put tx_id) ?clones (transactions w) = transactions w @ ?clones"
      by (rule fold_db_put_fresh)
    with new read False loop show ?thesis
      by (simp add: generate_unfold markMonthAsProcessed_transactions)
  qed
qed

section \<open>Dates read in local time\<close>

text \<open>
  The store functions parse a date with \<open>new Date(tx.date)\<close>, which is midnight UTC of
  that day, read it with the local getters, build new dates in local time and print them
  with \<open>toISOString()\<close>, which is UTC again.  (The report pages parse
  \<open>tx.date + 'T12:00:00'\<close>, local noon, before they use a local getter.)  Where local
  time is not UTC the day, the month and the year that the getters return need not be
  those of the date, and the date printed need not be the local date that was built.
  In UTC the call does what C5 and C6 say of it (\<open>generate_utc\<close> above).

  C5 says that the clone of a fixed transaction is dated on the same day of the month
  in the target month, or on the last day of the target month where that day does not
  exist.  One hour east of UTC the rent dated 2024-01-31 is regenerated for February
  2024 with the date 2024-02-28, not 2024-02-29; three hours west of UTC a rent dated
  2024-01-15 is regenerated with the date 2024-02-14, not 2024-02-15.
\<close>

theorem C5_clone_date_outside_utc:
  "map date (transactions (snd (generateFixedTransactionsForMonth 2024 1
      (store0\<lparr>LocalTZA := fixed_zone 60\<rparr>)))) =
     [Civil 2024 1 31, Civil 2024 1 5, Civil 2024 2 28] \<and>
   map date (transactions (snd (generateFixedTransactionsForMonth 2024 1
      (store0\<lparr>LocalTZA := fixed_zone (- 180),
              transactions := [rent\<lparr>date := Civil 2024 1 15\<rparr>, salary]\<rparr>)))) =
     [Civil 2024 1 15, Civil 2024 1 5, Civil 2024 2 14]"
  by (simp add: generate_eval date_eval sample_defs)

text \<open>
  C6 says that \<open>generateFixedTransactionsForMonth(y,m)\<close> sources exactly the fixed
  transactions of the previous calendar month.  Three hours west of UTC, with a rent
  dated 2024-01-01 and a gym fee dated 2024-02-01 in the store, both fixed, the call for
  February 2024 returns 1: it passes over the rent of January, whose date it reads as
  31 December, and clones the gym fee of February, whose date it reads as 31 January.
\<close>

theorem C6_sources_wrong_month_west_of_utc:
  "fst (generateFixedTransactionsForMonth 2024 1 west_store) = Inr 1 \<and>
   map (\<lambda>tx. (description tx, date tx))
     (transactions (snd (generateFixedTransactionsForMonth 2024 1 west_store))) =
     [(''rent'', Civil 2024 1 1), (''gym'', Civil 2024 2 1), (''gym'', Civil 2024 2 29)]"
  by (simp add: generate_eval date_eval sample_defs gym_def west_store_def)


section \<open>Installments\<close>

text \<open>The loop and the call without their local bindings: the rules that evaluate a call.\<close>

lemma recurring_loop_unfold:
  "recurring_loop draft now parentId rc baseDate i (acc, w) =
     (if i < rc_times rc then
        (case toISODate
                (installmentDate (LocalTZA w) (rc_period rc) (rc_customDays rc) baseDate i) of
           Inl e \<Rightarrow> (Inl e, w\<lparr>uuid_src := (\<lambda>n. uuid_src w (Suc n))\<rparr>)
         | Inr d \<Rightarrow>
             recurring_loop draft now parentId rc baseDate (i + 1)
               (acc @ [newInstallment draft now parentId rc i (uuid_src w 0) d],
                w\<lparr>uuid_src := (\<lambda>n. uuid_src w (Suc n)),
                  transactions :=
                    db_put tx_id (newInstallment draft now parentId rc i (uuid_src w 0) d)
                      (transactions w)\<rparr>))
      else (Inr acc, w))"
  by (subst recurring_loop.simps) (simp add: uuidv4_def Let_def split: sum.split)

lemma addRecurringTransaction_unfold:
  "addRecurringTransaction draft w =
     (case (if isRepeating draft then repeatConfig draft else None) of
        None \<Rightarrow> (Inr [fst (addTransaction draft w)], snd (addTransaction draft w))
      | Some rc \<Rightarrow>
          recurring_loop draft (clock_src w 0) (uuid_src w 0) rc (Date_parse (date draft)) 0
            ([], w\<lparr>clock_src := (\<lambda>n. clock_src w (Suc n)),
                   uuid_src := (\<lambda>n. uuid_src w (Suc n))\<rparr>))"
  by (simp add: addRecurringTransaction_def nowISO_def uuidv4_def Let_def split_beta
      split: option.split)

lemmas recurring_eval =
  addRecurringTransaction_unfold recurring_loop_unfold installmentDate_def newInstallment_def

text \<open>
  The loop when no date fails to print: it runs through all installments that are left.
\<close>

lemma recurring_loop_char:
  assumes "nat (rc_times rc - i) = n"
    and "\<forall>k < n. installmentDate (LocalTZA w) (rc_period rc) (rc_customDays rc) base
                     (i + int k) \<noteq> None"
  shows "recurring_loop draft now pid rc base i (acc, w) =
     (Inr (acc @ map (\<lambda>k. newInstallment draft now pid rc (i + int k) (uuid_src w k)
                         (Day (the (installmentDate (LocalTZA w) (rc_period rc)
                                      (rc_customDays rc) base (i + int k))))) [0..<n]),
      w\<lparr>uuid_src := (\<lambda>k. uuid_src w (n + k)),
        transactions := fold (db_put tx_id)
          (map (\<lambda>k. newInstallment draft now pid rc (i + int k) (uuid_src w k)
                      (Day (the (installmentDate (LocalTZA w) (rc_period rc)
                                   (rc_customDays rc) base (i + int k))))) [0..<n])
          (transactions w)\<rparr>)"
  using assms
proof (induction n arbitrary: i acc w)
  case 0
  then have "\<not> i < rc_times rc" by simp
  then show ?case by (subst recurring_loop_unfold) simp
next
  case (Suc n)
  then have lt: "i < rc_times rc" and n: "nat (rc_times rc - (i + 1)) = n" by auto
  from Suc.prems(2) obtain t
    where t: "installmentDate (LocalTZA w) (rc_period rc) (rc_customDays rc) base i = Some t"
    by (metis add.right_neutral not_None_eq of_nat_0 zero_less_Suc)
  let ?new = "newInstallment draft now pid rc i (uuid_src w 0) (Day t)"
  let ?w1 = "w\<lparr>uuid_src := (\<lambda>k. uuid_src w (Suc k)),
               transactions := db_put tx_id ?new (transactions w)\<rparr>"
  have rest: "\<forall>k < n. installmentDate (LocalTZA ?w1) (rc_period rc) (rc_customDays rc) base
                         (i + 1 + int k) \<noteq> None"
  proof (intro allI impI)
    fix k assume "k < n"
    then have "Suc k < Suc n" by simp
    with Suc.prems(2) have "installmentDate (LocalTZA w) (rc_period rc) (rc_customDays rc) base
        (i + int (Suc k)) \<noteq> None"
      by blast
    then show "installmentDate (LocalTZA ?w1) (rc_period rc) (rc_customDays rc) base
        (i + 1 + int k) \<noteq> None"
      by (simp add: add.assoc)
  qed
  have "recurring_loop draft now pid rc base i (acc, w) =
        recurring_loop draft now pid rc base (i + 1) (acc @ [?new], ?w1)"
    using lt by (subst recurring_loop_unfold) (simp add: t toISODate_simps)
  also note Suc.IH [OF n rest, of "acc @ [?new]"]
  finally show ?case
    by (simp add: map_upt_Suc_shift add.assoc t del: upt_Suc)
qed


text \<open>What \<open>addRecurringTransaction\<close> returns and stores for a repeating draft.\<close>

lemma addRecurringTransaction_repeating:
  assumes "isRepeating draft" and "repeatConfig draft = Some rc"
    and "\<forall>i. 0 \<le> i \<and> i < rc_times rc \<longrightarrow>
           installmentDate (LocalTZA w) (rc_period rc) (rc_customDays rc)
             (Date_parse (date draft)) i \<noteq> None"
  shows "addRecurringTransaction draft w =
     (Inr (map (\<lambda>k. newInstallment draft (clock_src w 0) (uuid_src w 0) rc (int k)
                       (uuid_src w (Suc k))
                       (Day (the (installmentDate (LocalTZA w) (rc_period rc) (rc_customDays rc)
                                    (Date_parse (date draft)) (int k)))))
             [0..<nat (rc_times rc)]),
      w\<lparr>clock_src := (\<lambda>k. clock_src w (Suc k)),
        uuid_src := (\<lambda>k. uuid_src w (Suc (nat (rc_times rc) + k))),
        transactions := fold (db_put tx_id)
          (map (\<lambda>k. newInstallment draft (clock_src w 0) (uuid_src w 0) rc (int k)
                       (uuid_src w (Suc k))
                       (Day (the (installmentDate (LocalTZA w) (rc_period rc) (rc_customDays rc)
                                    (Date_parse (date draft)) (int k)))))
             [0..<nat (rc_times rc)])
          (transactions w)\<rparr>)"
proof -
  let ?w2 = "w\<lparr>clock_src := (\<lambda>n. clock_src w (Suc n)), uuid_src := (\<lambda>n. uuid_src w (Suc n))\<rparr>"
  have dates: "\<forall>k < nat (rc_times rc).
      installmentDate (LocalTZA ?w2) (rc_period rc) (rc_customDays rc)
        (Date_parse (date draft)) (0 + int k) \<noteq> None"
    using assms(3) by auto
  have n: "nat (rc_times rc - 0) = nat (rc_times rc)" by simp
  show ?thesis
    using assms(1,2)
    by (simp add: addRecurringTransaction_unfold recurring_loop_char [OF n dates])
qed

text \<open>
  The call returns for every repeating draft whose date exists and has a year from 0 to
  9999, as long as the number of installments times the larger of 30 and \<open>customDays\<close>
  stays below 200,000 and the offsets of local time stay below a day.
\<close>

lemma addRecurringTransaction_returns:
  assumes "isRepeating draft" and "repeatConfig draft = Some rc"
    and "valid_civil (date draft)" and "0 \<le> cy (date draft)" and "cy (date draft) \<le> 9999"
    and "\<forall>t b. \<bar>LocalTZA w t b\<bar> < msPerDay"
    and "rc_times rc * max 30 (case rc_customDays rc of None \<Rightarrow> 0 | Some n \<Rightarrow> \<bar>n\<bar>) \<le> 200000"
  shows "\<exists>txs w'. addRecurringTransaction draft w = (Inr txs, w') \<and>
           int (length txs) = max 0 (rc_times rc)"
proof -
  let ?s = "max 30 (case rc_customDays rc of None \<Rightarrow> 0 | Some n \<Rightarrow> \<bar>n\<bar>)"
  have "\<forall>i. 0 \<le> i \<and> i < rc_times rc \<longrightarrow>
      installmentDate (LocalTZA w) (rc_period rc) (rc_customDays rc)
        (Date_parse (date draft)) i \<noteq> None"
  proof (intro allI impI)
    fix i assume i: "0 \<le> i \<and> i < rc_times rc"
    then have "i * ?s \<le> rc_times rc * ?s"
      by (intro mult_right_mono) simp_all
    with assms(7) have "i * ?s \<le> 200000" by simp
    with i show "installmentDate (LocalTZA w) (rc_period rc) (rc_customDays rc)
        (Date_parse (date draft)) i \<noteq> None"
      by (intro installmentDate_defined [OF assms(3-6)]) simp_all
  qed
  from addRecurringTransaction_repeating [OF assms(1,2) this]
  show ?thesis by simp
qed



text \<open>
  In UTC installment \<open>i\<close> is dated \<open>i\<close> periods after the date of the draft, as long as
  that is a time value: days are counted on, months and years are stepped without
  clamping the day, and the custom period has \<open>customDays || 30\<close> days.
\<close>

lemma installmentDate_utc:
  assumes "valid_civil c" and "0 \<le> cy c" and "cy c \<le> 9999"
  shows "installmentDate (fixed_zone 0) Daily cds (Date_parse c) i =
           TimeClip (TimeValue (add_days c i) 0)"
    and "installmentDate (fixed_zone 0) Weekly cds (Date_parse c) i =
           TimeClip (TimeValue (add_days c (i * 7)) 0)"
    and "installmentDate (fixed_zone 0) Monthly cds (Date_parse c) i =
           TimeClip (TimeValue (MakeDay (cy c) (cm c - 1 + i) (cd c)) 0)"
    and "installmentDate (fixed_zone 0) Yearly cds (Date_parse c) i =
           TimeClip (TimeValue (MakeDay (cy c + i) (cm c - 1) (cd c)) 0)"
    and "installmentDate (fixed_zone 0) Custom cds (Date_parse c) i =
           TimeClip (TimeValue
             (add_days c (i * (case cds of None \<Rightarrow> 30 | Some n \<Rightarrow> if n = 0 then 30 else n))) 0)"
proof -
  have parse: "Date_parse c = Some (TimeValue c 0)"
    using assms by (intro Date_parse_valid) simp_all
  show "installmentDate (fixed_zone 0) Daily cds (Date_parse c) i =
           TimeClip (TimeValue (add_days c i) 0)"
    and "installmentDate (fixed_zone 0) Weekly cds (Date_parse c) i =
           TimeClip (TimeValue (add_days c (i * 7)) 0)"
    and "installmentDate (fixed_zone 0) Monthly cds (Date_parse c) i =
           TimeClip (TimeValue (MakeDay (cy c) (cm c - 1 + i) (cd c)) 0)"
    and "installmentDate (fixed_zone 0) Yearly cds (Date_parse c) i =
           TimeClip (TimeValue (MakeDay (cy c + i) (cm c - 1) (cd c)) 0)"
    and "installmentDate (fixed_zone 0) Custom cds (Date_parse c) i =
           TimeClip (TimeValue
             (add_days c (i * (case cds of None \<Rightarrow> 30 | Some n \<Rightarrow> if n = 0 then 30 else n))) 0)"
    by (simp_all add: installmentDate_def parse utc_getters utc_setters
        MakeDay_shift [OF assms(1)])
qed

text \<open>
  C7 says that installment \<open>i\<close> is dated \<open>i\<close> periods after the base date of the draft:
  \<open>i\<close> days for daily, \<open>i\<close> calendar months for monthly.  So it is in UTC
  (\<open>installmentDate_utc\<close>).  But the base date is parsed as UTC, stepped in local time
  and printed in UTC, as the dates of the fixed transactions are.  Three hours west of
  UTC, three monthly installments from 2024-03-01 are dated 2024-03-01, 2024-03-30 and
  2024-04-30, not 2024-04-01 and 2024-05-01: the month is stepped on the local date,
  29 February 21:00.  In Central European Time, four daily installments from 2024-03-30
  are dated 2024-03-30, 2024-03-31, 2024-03-31 and 2024-04-01: from the start of
  daylight saving on, 01:00 local time of a day is 23:00 UTC of the day before.
\<close>

theorem C7_installment_dates_outside_utc:
  "map_sum id (map date)
     (fst (addRecurringTransaction three_monthly (store0\<lparr>LocalTZA := fixed_zone (- 180)\<rparr>))) =
     Inr [Civil 2024 3 1, Civil 2024 3 30, Civil 2024 4 30] \<and>
   map_sum id (map date)
     (fst (addRecurringTransaction four_daily (store0\<lparr>LocalTZA := europe_berlin_2024\<rparr>))) =
     Inr [Civil 2024 3 30, Civil 2024 3 31, Civil 2024 3 31, Civil 2024 4 1]"
  by (simp add: recurring_eval date_eval time_less_def europe_berlin_2024_def sample_defs
      three_monthly_def four_daily_def)

text \<open>
  The step of the custom period is \<open>customDays || 30\<close>: with \<open>customDays = 0\<close>, as
  without \<open>customDays\<close>, the installments are thirty days apart.
\<close>

lemma customDays_zero:
  "map_sum id (map date) (fst (addRecurringTransaction two_custom store0)) =
     Inr [Civil 2024 1 1, Civil 2024 1 31]"
  by (simp add: recurring_eval date_eval sample_defs two_custom_def)

text \<open>
  A draft whose date has no thirteenth month: the call draws the id of the series and
  the id of the first installment, throws at \<open>toISOString\<close> and stores nothing.
\<close>

lemma addRecurringTransaction_invalid_date:
  "addRecurringTransaction (six_monthly\<lparr>date := Civil 2024 13 1\<rparr>) store0 =
     (Inl RangeError,
      store0\<lparr>clock_src := (\<lambda>n. clock0 (Suc n)), uuid_src := (\<lambda>n. ids0 (Suc (Suc n)))\<rparr>)"
  by (simp add: recurring_eval date_eval sample_defs six_monthly_def)

section \<open>Export and import\<close>

lemma import_categories_fold:
  "fold (\<lambda>cat v. if P cat then v\<lparr>categories := db_put cat_id cat (categories v)\<rparr> else v) cs w =
   w\<lparr>categories := fold (db_put cat_id) (filter P cs) (categories w)\<rparr>"
  by (induction cs arbitrary: w) simp_all

lemma import_accounts_fold:
  "fold (\<lambda>acc v. if P acc then v\<lparr>accounts := db_put acc_id acc (accounts v)\<rparr> else v) as w =
   w\<lparr>accounts := fold (db_put acc_id) (filter P as) (accounts w)\<rparr>"
  by (induction as arbitrary: w) simp_all

lemma import_transactions_fold:
  "fold (\<lambda>tx v. if P tx then v\<lparr>transactions := db_put tx_id tx (transactions v)\<rparr> else v) ts w =
   w\<lparr>transactions := fold (db_put tx_id) (filter P ts) (transactions w)\<rparr>"
  by (induction ts arbitrary: w) simp_all

text \<open>What an import leaves in the three collections, for any exported value and any store.\<close>

lemma handleImportData_collections:
  "categories (handleImportData imported v) =
     fold (db_put cat_id)
       (filter (\<lambda>c. category_key c \<notin> category_key ` set (categories v)) (ex_categories imported))
       (categories v)"
  "accounts (handleImportData imported v) =
     fold (db_put acc_id)
       (filter (\<lambda>a. acc_name a \<notin> acc_name ` set (accounts v)) (ex_accounts imported))
       (accounts v)"
  "transactions (handleImportData imported v) =
     fold (db_put tx_id)
       (filter (\<lambda>t. tx_id t \<notin> tx_id ` set (transactions v)) (ex_transactions imported))
       (transactions v)"
  by (simp_all add: handleImportData_def Let_def import_categories_fold import_accounts_fold
      import_transactions_fold)

lemma category_key_eq:
  "(category_key c = category_key c') = (cat_type c = cat_type c' \<and> cat_name c = cat_name c')"
  by (cases "cat_type c"; cases "cat_type c'") (simp_all add: category_key_def type_string_def)

lemma fold_db_put_empty: "distinct (map key rs) \<Longrightarrow> fold (db_put key) rs [] = rs"
  using fold_db_put_fresh [of key rs "[]"] by simp

text \<open>
  C8: exporting a store and importing the exported file into an empty store leaves the
  transactions, the categories and the accounts of the exported store, each record as
  it was, id and timestamps included.  In general an import puts, without changing
  them, exactly those categories of the file whose type and name no category of the
  store had before the import, those accounts whose name no account of the store had,
  and those transactions whose id no transaction of the store had.  (A store holds one
  record per id.)
\<close>

theorem C8_export_import_round_trip:
  assumes "distinct (map tx_id (transactions w))"
    and "distinct (map cat_id (categories w))"
    and "distinct (map acc_id (accounts w))"
    and "transactions target = []" and "categories target = []" and "accounts target = []"
  shows "version (fst (handleExportData w)) = 1 \<and>
    transactions (handleImportData (fst (handleExportData w)) target) = transactions w \<and>
    categories (handleImportData (fst (handleExportData w)) target) = categories w \<and>
    accounts (handleImportData (fst (handleExportData w)) target) = accounts w \<and>
    categories (handleImportData imported v) =
      fold (db_put cat_id)
        (filter (\<lambda>c. \<not> (\<exists>c' \<in> set (categories v).
                          cat_type c' = cat_type c \<and> cat_name c' = cat_name c))
           (ex_categories imported))
        (categories v) \<and>
    accounts (handleImportData imported v) =
      fold (db_put acc_id)
        (filter (\<lambda>a. acc_name a \<notin> acc_name ` set (accounts v)) (ex_accounts imported))
        (accounts v) \<and>
    transactions (handleImportData imported v) =
      fold (db_put tx_id)
        (filter (\<lambda>t. tx_id t \<notin> tx_id ` set (transactions v)) (ex_transactions imported))
        (transactions v)"
proof -
  have exported:
    "version (fst (handleExportData w)) = 1"
    "ex_transactions (fst (handleExportData w)) = transactions w"
    "ex_categories (fst (handleExportData w)) = categories w"
    "ex_accounts (fst (handleExportData w)) = accounts w"
    by (simp_all add: handleExportData_def nowISO_def)
  have by_type_and_name:
    "(\<lambda>c. category_key c \<notin> category_key ` set (categories v)) =
     (\<lambda>c. \<not> (\<exists>c' \<in> set (categories v). cat_type c' = cat_type c \<and> cat_name c' = cat_name c))"
    by (auto simp: category_key_eq image_iff fun_eq_iff)
  have round_trip:
    "transactions (handleImportData (fst (handleExportData w)) target) = transactions w"
    "categories (handleImportData (fst (handleExportData w)) target) = categories w"
    "accounts (handleImportData (fst (handleExportData w)) target) = accounts w"
    using assms
    by (simp_all add: handleImportData_collections exported fold_db_put_empty)
  have cats: "categories (handleImportData imported v) =
      fold (db_put cat_id)
        (filter (\<lambda>c. \<not> (\<exists>c' \<in> set (categories v).
                          cat_type c' = cat_type c \<and> cat_name c' = cat_name c))
           (ex_categories imported))
        (categories v)"
    unfolding by_type_and_name [symmetric] by (rule handleImportData_collections)
  from exported(1) round_trip cats handleImportData_collections(2,3) [of imported v]
  show ?thesis by (intro conjI)
qed

theorem C8_export_import_round_trip_witness:
  "distinct (map tx_id (transactions store0)) \<and>
   distinct (map cat_id (categories store0)) \<and>
   distinct (map acc_id (accounts store0)) \<and>
   transactions (handleImportData (fst (handleExportData store0)) empty_store) = [rent, salary] \<and>
   categories (handleImportData (fst (handleExportData store0)) empty_store) = [cat_rent, cat_salary] \<and>
   accounts (handleImportData (fst (handleExportData store0)) empty_store) = [wallet, savings]"
proof -
  have d: "distinct (map tx_id (transactions store0))"
    "distinct (map cat_id (categories store0))"
    "distinct (map acc_id (accounts store0))"
    by (simp_all add: sample_defs)
  have e: "transactions empty_store = []" "categories empty_store = []"
    "accounts empty_store = []"
    by (simp_all add: empty_store_def)
  have s: "transactions store0 = [rent, salary]" "categories store0 = [cat_rent, cat_salary]"
    "accounts store0 = [wallet, savings]"
    by (simp_all add: store0_def)
  from d C8_export_import_round_trip [OF d e, where imported = "fst (handleExportData store0)"
      and v = empty_store]
  show ?thesis by (simp add: s)
qed

end
